theory Spec2Isabelle
  imports Complex_Main
begin

section \<open>Air Canvas: the stroke store and the gesture interpreter\<close>

text \<open>
  The development embeds the stroke store (class \<open>DrawingCanvas\<close>, file
  \<open>src/drawingCanvas.ts\<close> and its two sibling versions) and the gesture interpreter
  (class \<open>AirCanvas\<close>, the two versions of \<open>main.ts\<close>).

  Conventions of the embedding:
  \<^item> a JavaScript \<open>number\<close> is a real number: coordinates, distances and clock readings
    are idealised, rounding and \<open>NaN\<close> are not modelled;
  \<^item> a method that mutates \<open>this\<close> takes the object's state and returns the new one;
  \<^item> a thrown \<open>TypeError\<close> is the left summand of the result;
  \<^item> the 2D drawing context is not part of the state: \<open>clear\<close>, \<open>render\<close> and the
    other painting methods change pixels only;
  \<^item> the module \<open>constants.ts\<close> is a parameter, the record \<open>config\<close>.
\<close>

subsection \<open>Data\<close>

text \<open>\<open>Point2D\<close> is \<open>{x, y}\<close>; the fields are called \<open>px\<close> and \<open>py\<close> here.\<close>

record Point2D =
  px :: real
  py :: real

text \<open>
  \<open>Stroke\<close> is \<open>{points, color, width, closed}\<close>. The colour is optional because
  \<open>COLOR_ARRAY[i]\<close> is \<open>undefined\<close> when \<open>i\<close> is out of range.
\<close>

record Stroke =
  points :: "Point2D list"
  color :: "string option"
  width :: real
  closed_flag :: bool

text \<open>
  The constants the code reads from \<open>constants.ts\<close>: \<open>STROKE.MIN_POINT_DISTANCE\<close>,
  \<open>STROKE.SMOOTHING\<close>, \<open>STROKE.WIDTH\<close>, \<open>GESTURE.MIN_STROKE_LENGTH\<close>,
  \<open>GESTURE.PALM_HOLD_TIME\<close>, \<open>GESTURE.FIST_HOLD_TIME\<close>, \<open>TIMING.STROKE_CLOSE_PULSE\<close>
  and \<open>COLOR_ARRAY\<close>.
\<close>

record config =
  MIN_POINT_DISTANCE :: real
  SMOOTHING :: real
  WIDTH :: real
  MIN_STROKE_LENGTH :: real
  PALM_HOLD_TIME :: real
  FIST_HOLD_TIME :: real
  STROKE_CLOSE_PULSE :: real
  COLOR_ARRAY :: "string list"

datatype exn = TypeError

text \<open>
  A completed stroke is an object of its own (\<open>closeStroke\<close> copies the current stroke
  with \<open>{ ...this.currentStroke }\<close>), and \<open>removeCompletedStroke\<close> looks it up with
  \<open>indexOf\<close>, that is by object identity. A completed stroke is therefore a pair of its
  identity and its fields; \<open>allocated\<close> counts the copies made so far and supplies the
  next identity.
\<close>

type_synonym StrokeObj = "nat \<times> Stroke"

record DrawingCanvas =
  currentStroke :: "Stroke option"
  completedStrokes :: "StrokeObj list"
  allocated :: nat

text \<open>The third version of the class keeps the fingertip position besides.\<close>

record DrawingCanvasLive = DrawingCanvas +
  livePosition :: "Point2D option"
  smoothedPosition :: "Point2D option"

subsection \<open>The stroke store: \<open>src/drawingCanvas.ts\<close>\<close>

definition startStroke :: "config \<Rightarrow> Point2D \<Rightarrow> string option \<Rightarrow> DrawingCanvas \<Rightarrow> DrawingCanvas" where
  "startStroke cfg point col s =
     s\<lparr>currentStroke := Some \<lparr>points = [point], color = col, width = WIDTH cfg, closed_flag = False\<rparr>\<rparr>"

definition distance :: "Point2D \<Rightarrow> Point2D \<Rightarrow> real" where
  "distance p1 p2 =
     (let dx = px p1 - px p2; dy = py p1 - py p2 in sqrt (dx * dx + dy * dy))"

text \<open>
  \<open>addPoint\<close>: \<open>points[points.length - 1]\<close> of an empty array is \<open>undefined\<close>, and
  \<open>distance\<close> then throws a \<open>TypeError\<close> on reading \<open>p2.x\<close>.
\<close>

definition addPoint :: "config \<Rightarrow> Point2D \<Rightarrow> DrawingCanvas \<Rightarrow> exn + DrawingCanvas" where
  "addPoint cfg point s =
     (case currentStroke s of
        None \<Rightarrow> Inr s
      | Some st \<Rightarrow>
          if points st = [] then Inl TypeError
          else
            let lastPoint = last (points st);
                dist = distance point lastPoint
            in if dist \<ge> MIN_POINT_DISTANCE cfg
               then Inr (s\<lparr>currentStroke := Some (st\<lparr>points := points st @ [point]\<rparr>)\<rparr>)
               else Inr s)"

definition pauseStroke :: "DrawingCanvas \<Rightarrow> DrawingCanvas" where
  "pauseStroke s = s"

definition discardStroke :: "DrawingCanvas \<Rightarrow> DrawingCanvas" where
  "discardStroke s = s\<lparr>currentStroke := None\<rparr>"

text \<open>
  The loop of \<open>calculateStrokeLength\<close>:
  \<open>for (let i = 1; i < points.length; i++) length += distance(points[i - 1], points[i])\<close>.
\<close>

function strokeLengthLoop :: "Point2D list \<Rightarrow> nat \<Rightarrow> real \<Rightarrow> real" where
  "strokeLengthLoop pts i len =
     (if i < length pts
      then strokeLengthLoop pts (i + 1) (len + distance (pts ! (i - 1)) (pts ! i))
      else len)"
  by pat_completeness auto
termination
  by (relation "measure (\<lambda>(pts, i, len). length pts - i)") auto

definition calculateStrokeLength :: "DrawingCanvas \<Rightarrow> real" where
  "calculateStrokeLength s =
     (case currentStroke s of
        None \<Rightarrow> 0
      | Some st \<Rightarrow> if length (points st) < 2 then 0 else strokeLengthLoop (points st) 1 0)"

definition closeStroke :: "config \<Rightarrow> DrawingCanvas \<Rightarrow> StrokeObj option \<times> DrawingCanvas" where
  "closeStroke cfg s =
     (case currentStroke s of
        None \<Rightarrow> (None, s)
      | Some st \<Rightarrow>
          if calculateStrokeLength s < MIN_STROKE_LENGTH cfg then (None, discardStroke s)
          else if length (points st) > 2 then
            let closedStroke = (allocated s, st\<lparr>closed_flag := True\<rparr>)
            in (Some closedStroke,
                s\<lparr>currentStroke := None,
                  completedStrokes := completedStrokes s @ [closedStroke],
                  allocated := Suc (allocated s)\<rparr>)
          else (None, discardStroke s))"

definition getCurrentStroke :: "DrawingCanvas \<Rightarrow> Stroke option" where
  "getCurrentStroke s = currentStroke s"

definition clearAll :: "DrawingCanvas \<Rightarrow> DrawingCanvas" where
  "clearAll s = s\<lparr>currentStroke := None, completedStrokes := []\<rparr>"

text \<open>\<open>indexOf\<close> compares object identities; \<open>None\<close> stands for \<open>-1\<close>.\<close>

fun indexOf :: "StrokeObj list \<Rightarrow> StrokeObj \<Rightarrow> nat option" where
  "indexOf [] stroke = None"
| "indexOf (c # cs) stroke =
     (if fst c = fst stroke then Some 0
      else case indexOf cs stroke of None \<Rightarrow> None | Some i \<Rightarrow> Some (Suc i))"

text \<open>\<open>splice(index, 1)\<close> removes the element at \<open>index\<close>.\<close>

definition splice1 :: "'a list \<Rightarrow> nat \<Rightarrow> 'a list" where
  "splice1 xs i = take i xs @ drop (Suc i) xs"

definition removeCompletedStroke :: "StrokeObj \<Rightarrow> DrawingCanvas \<Rightarrow> DrawingCanvas" where
  "removeCompletedStroke stroke s =
     (case indexOf (completedStrokes s) stroke of
        None \<Rightarrow> s
      | Some index \<Rightarrow> s\<lparr>completedStrokes := splice1 (completedStrokes s) index\<rparr>)"

subsection \<open>The version with smoothing (first file of \<open>unnamed/part_000\<close>)\<close>

text \<open>
  This version differs from the one above in \<open>addPoint\<close> only: it tests the raw point and
  stores \<open>smooth(point, lastPoint)\<close>.
\<close>

definition smooth :: "config \<Rightarrow> Point2D \<Rightarrow> Point2D \<Rightarrow> Point2D" where
  "smooth cfg current previous =
     \<lparr>px = px previous + (px current - px previous) * (1 - SMOOTHING cfg),
      py = py previous + (py current - py previous) * (1 - SMOOTHING cfg)\<rparr>"

definition addPoint_smoothing :: "config \<Rightarrow> Point2D \<Rightarrow> DrawingCanvas \<Rightarrow> exn + DrawingCanvas" where
  "addPoint_smoothing cfg point s =
     (case currentStroke s of
        None \<Rightarrow> Inr s
      | Some st \<Rightarrow>
          if points st = [] then Inl TypeError
          else
            let lastPoint = last (points st);
                dist = distance point lastPoint
            in if dist \<ge> MIN_POINT_DISTANCE cfg
               then let smoothedPoint = smooth cfg point lastPoint
                    in Inr (s\<lparr>currentStroke := Some (st\<lparr>points := points st @ [smoothedPoint]\<rparr>)\<rparr>)
               else Inr s)"

subsection \<open>The version with a live position (second file of \<open>unnamed/part_000\<close>)\<close>

definition SMOOTHING_FACTOR :: real where
  "SMOOTHING_FACTOR = 15 / 100"

definition smoothPoint :: "Point2D \<Rightarrow> DrawingCanvasLive \<Rightarrow> Point2D" where
  "smoothPoint point s =
     (case smoothedPosition s of
        None \<Rightarrow> point
      | Some sp \<Rightarrow>
          \<lparr>px = px sp + (px point - px sp) * (1 - SMOOTHING_FACTOR),
           py = py sp + (py point - py sp) * (1 - SMOOTHING_FACTOR)\<rparr>)"

text \<open>
  Here the smoothed point is tested and stored, and both positions are written before the
  last point is read.
\<close>

definition addPoint_live :: "config \<Rightarrow> Point2D \<Rightarrow> DrawingCanvasLive \<Rightarrow> exn + DrawingCanvasLive" where
  "addPoint_live cfg point s =
     (case currentStroke s of
        None \<Rightarrow> Inr s
      | Some st \<Rightarrow>
          let smoothedPoint = smoothPoint point s;
              s1 = s\<lparr>livePosition := Some point, smoothedPosition := Some smoothedPoint\<rparr>
          in if points st = [] then Inl TypeError
             else
               let lastPoint = last (points st);
                   dist = distance smoothedPoint lastPoint
               in if dist \<ge> MIN_POINT_DISTANCE cfg
                  then Inr (s1\<lparr>currentStroke := Some (st\<lparr>points := points st @ [smoothedPoint]\<rparr>)\<rparr>)
                  else Inr s1)"

definition updateLivePosition :: "Point2D \<Rightarrow> DrawingCanvasLive \<Rightarrow> DrawingCanvasLive" where
  "updateLivePosition point s =
     s\<lparr>livePosition := Some point, smoothedPosition := Some (smoothPoint point s)\<rparr>"

definition clearLivePosition :: "DrawingCanvasLive \<Rightarrow> DrawingCanvasLive" where
  "clearLivePosition s = s\<lparr>livePosition := None, smoothedPosition := None\<rparr>"

subsection \<open>Sequences of calls on the store\<close>

text \<open>
  The methods of \<open>src/drawingCanvas.ts\<close> that touch the fields of the store. A sequence of
  calls stops at the first exception.
\<close>

datatype canvas_call =
    StartStroke Point2D "string option"
  | AddPoint Point2D
  | PauseStroke
  | CloseStroke
  | DiscardStroke
  | ClearAll
  | RemoveCompletedStroke StrokeObj

fun call :: "config \<Rightarrow> canvas_call \<Rightarrow> DrawingCanvas \<Rightarrow> exn + DrawingCanvas" where
  "call cfg (StartStroke p col) s = Inr (startStroke cfg p col s)"
| "call cfg (AddPoint p) s = addPoint cfg p s"
| "call cfg PauseStroke s = Inr (pauseStroke s)"
| "call cfg CloseStroke s = Inr (snd (closeStroke cfg s))"
| "call cfg DiscardStroke s = Inr (discardStroke s)"
| "call cfg ClearAll s = Inr (clearAll s)"
| "call cfg (RemoveCompletedStroke stroke) s = Inr (removeCompletedStroke stroke s)"

fun calls :: "config \<Rightarrow> canvas_call list \<Rightarrow> DrawingCanvas \<Rightarrow> exn + DrawingCanvas" where
  "calls cfg [] s = Inr s"
| "calls cfg (c # cs) s = (case call cfg c s of Inl e \<Rightarrow> Inl e | Inr s' \<Rightarrow> calls cfg cs s')"

text \<open>A call that takes the completed stroke \<open>stroke\<close> out of the store.\<close>

fun drops :: "StrokeObj \<Rightarrow> canvas_call \<Rightarrow> bool" where
  "drops stroke ClearAll = True"
| "drops stroke (RemoveCompletedStroke other) = (fst other = fst stroke)"
| "drops stroke c = False"

subsection \<open>Notions of the specification\<close>

text \<open>The path length of a stroke: the sum of the distances of consecutive points.\<close>

fun pathLength :: "Point2D list \<Rightarrow> real" where
  "pathLength (p # q # rest) = distance p q + pathLength (q # rest)"
| "pathLength ps = 0"

text \<open>Consecutive points are at least \<open>d\<close> apart.\<close>

fun spaced :: "real \<Rightarrow> Point2D list \<Rightarrow> bool" where
  "spaced d (p # q # rest) = (d \<le> distance p q \<and> spaced d (q # rest))"
| "spaced d ps = True"

text \<open>
  Identities in the completed set are pairwise different and were all handed out already.
\<close>

definition identities_ok :: "DrawingCanvas \<Rightarrow> bool" where
  "identities_ok s =
     (distinct (map fst (completedStrokes s)) \<and>
      (\<forall>i \<in> set (map fst (completedStrokes s)). i < allocated s))"

definition emptyCanvas :: DrawingCanvas where
  "emptyCanvas = \<lparr>currentStroke = None, completedStrokes = [], allocated = 0\<rparr>"

text \<open>
  Consecutive points of the stroke in progress and of every completed stroke are at least
  \<open>d\<close> apart.
\<close>

definition strokesSpaced :: "real \<Rightarrow> DrawingCanvas \<Rightarrow> bool" where
  "strokesSpaced d s =
     ((case currentStroke s of None \<Rightarrow> True | Some st \<Rightarrow> spaced d (points st)) \<and>
      list_all (\<lambda>c. spaced d (points (snd c))) (completedStrokes s))"

text \<open>The list without its first element of identity \<open>i\<close>.\<close>

fun withoutFirst :: "nat \<Rightarrow> StrokeObj list \<Rightarrow> StrokeObj list" where
  "withoutFirst i [] = []"
| "withoutFirst i (c # cs) = (if fst c = i then cs else c # withoutFirst i cs)"

subsection \<open>The gesture interpreter: data\<close>

datatype GestureKind = none | draw | pinch | palm | fist | swipe

record GestureState =
  current :: GestureKind
  previous :: GestureKind
  duration :: real
  velocity :: Point2D
  confidence :: real

text \<open>
  What the tracker hands over: 21 points in viewport coordinates and, optionally, the world
  points \<open>{x, y, z}\<close>.
\<close>

record HandLandmarks =
  landmarks :: "Point2D list"
  worldLandmarks :: "(real \<times> real \<times> real) list option"

text \<open>A 3D object of the object manager is known by its identity only.\<close>

type_synonym BalloonObject = nat

text \<open>
  One invocation of the tracker callback, together with the answers of the collaborators
  during it: the argument of the callback, the results of \<open>gestureDetector.detect\<close>,
  \<open>getIndexTip\<close> and \<open>getPinchCenter\<close>, the answer of
  \<open>objectManager.getObjectAtPosition\<close> at every position, and the reading of
  \<open>performance.now()\<close> (successive reads within one callback give the same instant).
\<close>

record Frame =
  hand :: "HandLandmarks option"
  detected :: GestureState
  indexTip :: Point2D
  pinchCenter :: Point2D
  objectAt :: "real \<Rightarrow> real \<Rightarrow> BalloonObject option"
  now :: real

text \<open>The texts given to \<open>showStatus\<close>; \<open>Clearing n\<close> is \<open>`Clearing... ${n}%`\<close>.\<close>

datatype message =
    ShowYourHand
  | DrawLarger
  | FailedToCreate
  | ClearingAll
  | Clearing int

text \<open>
  The calls the interpreter makes on its collaborators: the status line, the object manager,
  the painting of the closing pulse and the scheduling of its next step. A callback returns
  the calls it made, in order.
\<close>

datatype effect =
    ShowStatus message "real option"
  | HideStatus
  | UpdateColorIndicator
  | UpdateObjectCounter
  | PokeObject BalloonObject
  | GrabObject BalloonObject
  | ReleaseObject BalloonObject
  | MoveGrabbedObject BalloonObject real real
  | RemoveObject BalloonObject
  | ObjectManagerClearAll
  | ObjectManagerUpdate real real
  | CreateFromStroke StrokeObj
  | RenderClosingAnimation StrokeObj real
  | RequestAnimationFrame StrokeObj real

text \<open>
  The fields the two versions of \<open>AirCanvas\<close> share, and the fields each adds. The
  components, the DOM elements and the preview of the second version are not part of the
  state.
\<close>

record Interpreter =
  drawingCanvas :: DrawingCanvas
  isDrawing :: bool
  lastGestureState :: "GestureState option"
  currentLandmarks :: "HandLandmarks option"
  palmHoldStart :: real
  fistHoldStart :: real
  handDetected :: bool
  lastFrameTime :: real
  grabbedObject :: "BalloonObject option"

record AirCanvas = Interpreter +
  currentColorIndex :: nat

record AirCanvas2 = Interpreter +
  currentColor :: string
  lastPinchPosition :: "Point2D option"
  isDragging :: bool
  lastMouseX :: real
  lastMouseY :: real
  selectedObject :: "BalloonObject option"

definition initialAirCanvas :: AirCanvas where
  "initialAirCanvas =
     \<lparr>drawingCanvas = emptyCanvas, isDrawing = False, lastGestureState = None,
      currentLandmarks = None, palmHoldStart = 0, fistHoldStart = 0, handDetected = False,
      lastFrameTime = 0, grabbedObject = None, currentColorIndex = 0\<rparr>"

subsection \<open>The gesture interpreter: first version of \<open>main.ts\<close>\<close>

text \<open>\<open>COLOR_ARRAY[i]\<close>, which is \<open>undefined\<close> out of range.\<close>

definition colorAt :: "config \<Rightarrow> nat \<Rightarrow> string option" where
  "colorAt cfg i = (if i < length (COLOR_ARRAY cfg) then Some (COLOR_ARRAY cfg ! i) else None)"

definition handleDraw :: "config \<Rightarrow> Frame \<Rightarrow> Point2D \<Rightarrow> AirCanvas \<Rightarrow> exn + effect list \<times> AirCanvas" where
  "handleDraw cfg fr position a =
     (case objectAt fr (px position) (py position) of
        Some hitObject \<Rightarrow> Inr ([PokeObject hitObject], a)
      | None \<Rightarrow>
          if \<not> isDrawing a then
            Inr ([], a\<lparr>isDrawing := True,
                       drawingCanvas :=
                         startStroke cfg position (colorAt cfg (currentColorIndex a)) (drawingCanvas a)\<rparr>)
          else
            (case addPoint cfg position (drawingCanvas a) of
               Inl e \<Rightarrow> Inl e
             | Inr c \<Rightarrow> Inr ([], a\<lparr>drawingCanvas := c\<rparr>)))"

definition handlePinch :: "Frame \<Rightarrow> AirCanvas \<Rightarrow> effect list \<times> AirCanvas" where
  "handlePinch fr a =
     (let a1 = (if isDrawing a
                then a\<lparr>isDrawing := False, drawingCanvas := pauseStroke (drawingCanvas a)\<rparr>
                else a)
      in case grabbedObject a1 of
           None \<Rightarrow>
             (case objectAt fr (px (pinchCenter fr)) (py (pinchCenter fr)) of
                Some hitObject \<Rightarrow> ([GrabObject hitObject], a1\<lparr>grabbedObject := Some hitObject\<rparr>)
              | None \<Rightarrow> ([], a1))
         | Some grabbed \<Rightarrow>
             ([MoveGrabbedObject grabbed (px (pinchCenter fr)) (py (pinchCenter fr))], a1))"

text \<open>
  \<open>createBalloon\<close> is asynchronous. The part up to \<open>await\<close> calls the object manager;
  \<open>createBalloon_resume\<close> is the rest, run when the promise is settled: \<open>ok\<close> tells
  whether it was fulfilled, and a rejection (or an exception of the call) enters the
  \<open>catch\<close> block. For an empty palette \<open>% COLOR_ARRAY.length\<close> is \<open>NaN\<close> in JavaScript,
  which \<open>mod\<close> does not model.
\<close>

definition createBalloon :: "StrokeObj \<Rightarrow> AirCanvas \<Rightarrow> effect list \<times> AirCanvas" where
  "createBalloon stroke a = ([CreateFromStroke stroke], a)"

definition createBalloon_resume :: "config \<Rightarrow> StrokeObj \<Rightarrow> bool \<Rightarrow> AirCanvas \<Rightarrow> effect list \<times> AirCanvas" where
  "createBalloon_resume cfg stroke ok a =
     (if ok then
        ([UpdateColorIndicator, UpdateObjectCounter],
         a\<lparr>drawingCanvas := removeCompletedStroke stroke (drawingCanvas a),
           currentColorIndex := (currentColorIndex a + 1) mod length (COLOR_ARRAY cfg)\<rparr>)
      else ([ShowStatus FailedToCreate (Some 2000)], a))"

text \<open>
  The closure \<open>animate\<close> of \<open>closeAndInflate\<close>, run once at the call and then once per
  animation frame until the progress reaches 1. \<open>t\<close> is the reading of
  \<open>performance.now()\<close>. For a pulse of 0 the quotient is \<open>Infinity\<close> or \<open>NaN\<close> in
  JavaScript, which the division of the reals does not model.
\<close>

definition closingProgress :: "config \<Rightarrow> real \<Rightarrow> real" where
  "closingProgress cfg elapsed = min (elapsed / (STROKE_CLOSE_PULSE cfg * 1000)) 1"

definition closeAndInflate_animate ::
    "config \<Rightarrow> StrokeObj \<Rightarrow> real \<Rightarrow> real \<Rightarrow> AirCanvas \<Rightarrow> effect list \<times> AirCanvas" where
  "closeAndInflate_animate cfg stroke startTime t a =
     (let elapsed = t - startTime;
          progress = closingProgress cfg elapsed
      in if progress < 1
         then ([RenderClosingAnimation stroke progress, RequestAnimationFrame stroke startTime], a)
         else (let (es, a') = createBalloon stroke a
               in (RenderClosingAnimation stroke progress # es, a')))"

definition closeAndInflate :: "config \<Rightarrow> real \<Rightarrow> AirCanvas \<Rightarrow> effect list \<times> AirCanvas" where
  "closeAndInflate cfg t a =
     (case closeStroke cfg (drawingCanvas a) of
        (None, c) \<Rightarrow> ([ShowStatus DrawLarger (Some 1000)], a\<lparr>drawingCanvas := c\<rparr>)
      | (Some stroke, c) \<Rightarrow>
          closeAndInflate_animate cfg stroke t t (a\<lparr>drawingCanvas := c, isDrawing := False\<rparr>))"

definition handlePalm :: "config \<Rightarrow> Frame \<Rightarrow> AirCanvas \<Rightarrow> effect list \<times> AirCanvas" where
  "handlePalm cfg fr a =
     (let (es1, a1) = (case grabbedObject a of
                         Some grabbed \<Rightarrow> ([ReleaseObject grabbed], a\<lparr>grabbedObject := None\<rparr>)
                       | None \<Rightarrow> ([], a));
          a2 = (if palmHoldStart a1 = 0 then a1\<lparr>palmHoldStart := now fr\<rparr> else a1);
          holdDuration = now fr - palmHoldStart a2
      in if holdDuration \<ge> PALM_HOLD_TIME cfg
         then (let (es2, a3) = closeAndInflate cfg (now fr) a2
               in (es1 @ es2, a3\<lparr>palmHoldStart := 0\<rparr>))
         else (es1, a2))"

text \<open>
  \<open>clearAll\<close> of \<open>AirCanvas\<close> up to its \<open>await\<close>; \<open>clearAll_resume\<close> is the rest.
\<close>

definition AirCanvas_clearAll :: "AirCanvas \<Rightarrow> effect list \<times> AirCanvas" where
  "AirCanvas_clearAll a =
     ([ShowStatus ClearingAll None, ObjectManagerClearAll],
      a\<lparr>drawingCanvas := clearAll (drawingCanvas a)\<rparr>)"

definition clearAll_resume :: "AirCanvas \<Rightarrow> effect list \<times> AirCanvas" where
  "clearAll_resume a = ([HideStatus, UpdateObjectCounter], a)"

text \<open>\<open>Math.round(x)\<close> is \<open>floor(x + 0.5)\<close>.\<close>

definition handleFist :: "config \<Rightarrow> Frame \<Rightarrow> AirCanvas \<Rightarrow> effect list \<times> AirCanvas" where
  "handleFist cfg fr a =
     (let a1 = (if fistHoldStart a = 0 then a\<lparr>fistHoldStart := now fr\<rparr> else a);
          holdDuration = now fr - fistHoldStart a1
      in if holdDuration \<ge> FIST_HOLD_TIME cfg
         then (let (es, a2) = AirCanvas_clearAll a1 in (es, a2\<lparr>fistHoldStart := 0\<rparr>))
         else if holdDuration > 200
         then (let progress = holdDuration / FIST_HOLD_TIME cfg
               in ([ShowStatus (Clearing \<lfloor>progress * 100 + 1 / 2\<rfloor>) None], a1))
         else ([], a1))"

definition handleSwipe :: "Frame \<Rightarrow> Point2D \<Rightarrow> AirCanvas \<Rightarrow> effect list \<times> AirCanvas" where
  "handleSwipe fr position a =
     (case objectAt fr (px position) (py position) of
        Some hitObject \<Rightarrow> ([RemoveObject hitObject, UpdateObjectCounter], a)
      | None \<Rightarrow> ([], a))"

definition handleGesture :: "config \<Rightarrow> Frame \<Rightarrow> GestureState \<Rightarrow> AirCanvas \<Rightarrow> exn + effect list \<times> AirCanvas" where
  "handleGesture cfg fr state a =
     (case (case current state of
              draw \<Rightarrow> handleDraw cfg fr (indexTip fr) a
            | pinch \<Rightarrow> Inr (handlePinch fr a)
            | palm \<Rightarrow> Inr (handlePalm cfg fr a)
            | fist \<Rightarrow> Inr (handleFist cfg fr a)
            | swipe \<Rightarrow> Inr (handleSwipe fr (indexTip fr) a)
            | none \<Rightarrow>
                (case grabbedObject a of
                   Some grabbed \<Rightarrow> Inr ([ReleaseObject grabbed], a\<lparr>grabbedObject := None\<rparr>)
                 | None \<Rightarrow> Inr ([], a))) of
        Inl e \<Rightarrow> Inl e
      | Inr (es, a1) \<Rightarrow>
          Inr (es,
               case lastGestureState a1 of
                 Some lastState \<Rightarrow>
                   if current state \<noteq> current lastState
                   then a1\<lparr>palmHoldStart := 0, fistHoldStart := 0\<rparr>
                   else a1
               | None \<Rightarrow> a1))"

definition onHandResults :: "config \<Rightarrow> Frame \<Rightarrow> AirCanvas \<Rightarrow> exn + effect list \<times> AirCanvas" where
  "onHandResults cfg fr a =
     (let wasDetected = handDetected a;
          a1 = a\<lparr>handDetected := (hand fr \<noteq> None), currentLandmarks := hand fr\<rparr>;
          es1 = (if \<not> handDetected a1 \<and> wasDetected then [ShowStatus ShowYourHand None]
                 else if handDetected a1 \<and> \<not> wasDetected then [HideStatus]
                 else [])
      in case hand fr of
           None \<Rightarrow> Inr (es1, if isDrawing a1 then a1\<lparr>isDrawing := False\<rparr> else a1)
         | Some lm \<Rightarrow>
             (let gestureState = detected fr
              in case handleGesture cfg fr gestureState a1 of
                   Inl e \<Rightarrow> Inl e
                 | Inr (es2, a2) \<Rightarrow> Inr (es1 @ es2, a2\<lparr>lastGestureState := Some gestureState\<rparr>)))"

text \<open>The render loop \<open>animate\<close> of the class: only \<open>lastFrameTime\<close> is written.\<close>

definition animate :: "real \<Rightarrow> AirCanvas \<Rightarrow> effect list \<times> AirCanvas" where
  "animate t a =
     (let deltaTime = (if lastFrameTime a > 0 then (t - lastFrameTime a) / 1000 else 16 / 1000)
      in ([ObjectManagerUpdate deltaTime (t / 1000)], a\<lparr>lastFrameTime := t\<rparr>))"

subsection \<open>The callbacks of the event loop\<close>

text \<open>
  Everything runs on one thread, one callback at a time: a tracker result, a step of a
  closing animation (for the stroke and start time it was scheduled with), the settling of
  a \<open>createFromStroke\<close> promise, the settling of the object manager's \<open>clearAll\<close>, and a
  frame of the render loop.
\<close>

datatype event =
    HandResults Frame
  | AnimationFrame StrokeObj real real
  | CreateSettled StrokeObj bool
  | ClearSettled
  | RenderFrame real

fun step :: "config \<Rightarrow> event \<Rightarrow> AirCanvas \<Rightarrow> exn + effect list \<times> AirCanvas" where
  "step cfg (HandResults fr) a = onHandResults cfg fr a"
| "step cfg (AnimationFrame stroke startTime t) a = Inr (closeAndInflate_animate cfg stroke startTime t a)"
| "step cfg (CreateSettled stroke ok) a = Inr (createBalloon_resume cfg stroke ok a)"
| "step cfg ClearSettled a = Inr (clearAll_resume a)"
| "step cfg (RenderFrame t) a = Inr (animate t a)"

text \<open>A sequence of callbacks; the calls made are collected in order.\<close>

fun run :: "config \<Rightarrow> event list \<Rightarrow> AirCanvas \<Rightarrow> exn + effect list \<times> AirCanvas" where
  "run cfg [] a = Inr ([], a)"
| "run cfg (ev # evs) a =
     (case step cfg ev a of
        Inl e \<Rightarrow> Inl e
      | Inr (es, a1) \<Rightarrow>
          (case run cfg evs a1 of
             Inl e \<Rightarrow> Inl e
           | Inr (es', a2) \<Rightarrow> Inr (es @ es', a2)))"

subsection \<open>The second version of \<open>main.ts\<close>: \<open>createBalloon\<close>\<close>

text \<open>
  The second version removes the stroke from the store before it calls the object manager,
  and has no palette index: the colour is the swatch the user clicked.
\<close>

definition createBalloon2 :: "StrokeObj \<Rightarrow> AirCanvas2 \<Rightarrow> effect list \<times> AirCanvas2" where
  "createBalloon2 stroke a =
     ([CreateFromStroke stroke],
      a\<lparr>drawingCanvas := removeCompletedStroke stroke (drawingCanvas a)\<rparr>)"

definition createBalloon2_resume :: "StrokeObj \<Rightarrow> bool \<Rightarrow> AirCanvas2 \<Rightarrow> effect list \<times> AirCanvas2" where
  "createBalloon2_resume stroke ok a =
     (if ok then ([], a) else ([ShowStatus FailedToCreate (Some 2000)], a))"

subsection \<open>Notions of the specification for the interpreter\<close>

text \<open>
  The tracked frames of a sequence of callbacks, latest first: the gesture kind and the
  clock of every tracker result that carried a hand.
\<close>

fun tracked :: "event \<Rightarrow> (GestureKind \<times> real) option" where
  "tracked (HandResults fr) =
     (case hand fr of None \<Rightarrow> None | Some lm \<Rightarrow> Some (current (detected fr), now fr))"
| "tracked ev = None"

definition history :: "event list \<Rightarrow> (GestureKind \<times> real) list" where
  "history evs = rev (List.map_filter tracked evs)"

text \<open>
  \<open>held g d t h\<close>: the latest frames of \<open>h\<close> all show the gesture \<open>g\<close>, back to one whose
  clock lies at least \<open>d\<close> before \<open>t\<close>.
\<close>

fun held :: "GestureKind \<Rightarrow> real \<Rightarrow> real \<Rightarrow> (GestureKind \<times> real) list \<Rightarrow> bool" where
  "held g d t [] = False"
| "held g d t ((g', t') # older) = (g' = g \<and> (d \<le> t - t' \<or> held g d t older))"

text \<open>\<open>since g t0 h\<close>: the latest frames of \<open>h\<close> all show \<open>g\<close>, back to one of clock \<open>t0\<close>.\<close>

fun since :: "GestureKind \<Rightarrow> real \<Rightarrow> (GestureKind \<times> real) list \<Rightarrow> bool" where
  "since g t0 [] = False"
| "since g t0 ((g', t') # older) = (g' = g \<and> (t' = t0 \<or> since g t0 older))"

text \<open>The calls by which \<open>closeAndInflate\<close> shows: the hint, or the first painting of the pulse.\<close>

fun isClosure :: "effect \<Rightarrow> bool" where
  "isClosure (ShowStatus DrawLarger d) = True"
| "isClosure (RenderClosingAnimation stroke progress) = True"
| "isClosure e = False"

text \<open>
  The timers agree with the tracked frames: the last gesture is the latest frame's, and a
  timer that is set was set during the current run of its gesture.
\<close>

definition timers_ok :: "AirCanvas \<Rightarrow> (GestureKind \<times> real) list \<Rightarrow> bool" where
  "timers_ok a h =
     (map_option current (lastGestureState a) = (case h of [] \<Rightarrow> None | (g, t) # older \<Rightarrow> Some g)
      \<and> (fistHoldStart a \<noteq> 0 \<longrightarrow> since fist (fistHoldStart a) h)
      \<and> (palmHoldStart a \<noteq> 0 \<longrightarrow> since palm (palmHoldStart a) h))"

text \<open>The gesture kind of the frame differs from that of the previous tracked frame.\<close>

definition gestureChanged :: "AirCanvas \<Rightarrow> GestureState \<Rightarrow> bool" where
  "gestureChanged a state =
     (case lastGestureState a of
        None \<Rightarrow> False
      | Some lastState \<Rightarrow> current state \<noteq> current lastState)"

text \<open>
  The closing animation as a whole: \<open>animate\<close> runs at the clock readings \<open>ts\<close>, the first
  at the call and the others in the animation frames it asked for, as long as it asks for
  a further frame.
\<close>

fun closingAnimation ::
    "config \<Rightarrow> StrokeObj \<Rightarrow> real \<Rightarrow> real list \<Rightarrow> AirCanvas \<Rightarrow> effect list \<times> AirCanvas" where
  "closingAnimation cfg stroke startTime [] a = ([], a)"
| "closingAnimation cfg stroke startTime (t # ts) a =
     (let (es, a1) = closeAndInflate_animate cfg stroke startTime t a
      in if RequestAnimationFrame stroke startTime \<in> set es
         then (let (es', a2) = closingAnimation cfg stroke startTime ts a1 in (es @ es', a2))
         else (es, a1))"

text \<open>The calls of a step of the animation that does not hand the stroke over yet.\<close>

definition pulse :: "config \<Rightarrow> StrokeObj \<Rightarrow> real \<Rightarrow> real \<Rightarrow> effect list" where
  "pulse cfg stroke startTime t =
     [RenderClosingAnimation stroke (closingProgress cfg (t - startTime)),
      RequestAnimationFrame stroke startTime]"

text \<open>The stroke in progress, if any, has a point: \<open>startStroke\<close> gives it one.\<close>

definition strokeNonEmpty :: "DrawingCanvas \<Rightarrow> bool" where
  "strokeNonEmpty c = (case currentStroke c of None \<Rightarrow> True | Some st \<Rightarrow> points st \<noteq> [])"

subsection \<open>Example values\<close>

definition cfg0 :: config where
  "cfg0 = \<lparr>MIN_POINT_DISTANCE = 5, SMOOTHING = 1 / 2, WIDTH = 4, MIN_STROKE_LENGTH = 100,
           PALM_HOLD_TIME = 500, FIST_HOLD_TIME = 1000, STROKE_CLOSE_PULSE = 1 / 2,
           COLOR_ARRAY = [''#FFB3BA'', ''#BAFFC9'', ''#BAE1FF'']\<rparr>"

definition pt :: "real \<Rightarrow> real \<Rightarrow> Point2D" where
  "pt a b = \<lparr>px = a, py = b\<rparr>"

definition strokeOf :: "Point2D list \<Rightarrow> Stroke" where
  "strokeOf ps = \<lparr>points = ps, color = Some ''#FFB3BA'', width = 4, closed_flag = False\<rparr>"

definition drawing :: "Point2D list \<Rightarrow> DrawingCanvas" where
  "drawing ps = \<lparr>currentStroke = Some (strokeOf ps), completedStrokes = [], allocated = 0\<rparr>"

definition drawingLive :: "Point2D list \<Rightarrow> DrawingCanvasLive" where
  "drawingLive ps = \<lparr>currentStroke = Some (strokeOf ps), completedStrokes = [], allocated = 0,
      livePosition = None, smoothedPosition = None\<rparr>"

definition emptyCanvasLive :: DrawingCanvasLive where
  "emptyCanvasLive = \<lparr>currentStroke = None, completedStrokes = [], allocated = 0,
      livePosition = None, smoothedPosition = None\<rparr>"

definition square5 :: "Point2D list" where
  "square5 = [pt 0 0, pt 30 0, pt 30 40, pt 0 40, pt 0 0]"

definition closedSquare :: StrokeObj where
  "closedSquare = (0, \<lparr>points = square5, color = Some ''#FFB3BA'', width = 4, closed_flag = True\<rparr>)"

definition completedCanvas :: DrawingCanvas where
  "completedCanvas = \<lparr>currentStroke = None, completedStrokes = [closedSquare], allocated = 1\<rparr>"

definition hand0 :: HandLandmarks where
  "hand0 = \<lparr>landmarks = replicate 21 (pt 0 0), worldLandmarks = None\<rparr>"

definition gestureOf :: "GestureKind \<Rightarrow> GestureState" where
  "gestureOf g = \<lparr>current = g, previous = none, duration = 0, velocity = pt 0 0, confidence = 1\<rparr>"

text \<open>
  A frame with a hand showing the gesture \<open>g\<close> at clock \<open>t\<close>, the fingertip and the pinch
  centre at \<open>p\<close>, and one 3D object, number 7, under the position \<open>(50, 50)\<close>.
\<close>

definition frameOf :: "GestureKind \<Rightarrow> real \<Rightarrow> Point2D \<Rightarrow> Frame" where
  "frameOf g t p =
     \<lparr>hand = Some hand0, detected = gestureOf g, indexTip = p, pinchCenter = p,
      objectAt = (\<lambda>x y. if x = 50 \<and> y = 50 then Some 7 else None), now = t\<rparr>"


text \<open>The interpreter after tracked frames only: a hand is present and \<open>g\<close> was seen last.\<close>

definition tracking :: "GestureKind \<Rightarrow> AirCanvas" where
  "tracking g = initialAirCanvas\<lparr>handDetected := True, currentLandmarks := Some hand0,
     lastGestureState := Some (gestureOf g)\<rparr>"


text \<open>The interpreter of the first version with one closed stroke waiting in the store.\<close>

definition awaiting :: AirCanvas where
  "awaiting = (tracking palm)\<lparr>drawingCanvas := completedCanvas\<rparr>"

text \<open>The same for the second version, with the first swatch selected.\<close>

definition awaiting2 :: AirCanvas2 where
  "awaiting2 =
     \<lparr>drawingCanvas = completedCanvas, isDrawing = False, lastGestureState = Some (gestureOf palm),
      currentLandmarks = Some hand0, palmHoldStart = 0, fistHoldStart = 0, handDetected = True,
      lastFrameTime = 0, grabbedObject = None, currentColor = ''#FFB3BA'',
      lastPinchPosition = None, isDragging = False, lastMouseX = 0, lastMouseY = 0,
      selectedObject = None\<rparr>"

section \<open>Properties\<close>

text \<open>
  The loop of \<open>calculateStrokeLength\<close> computes the path length.
\<close>

declare strokeLengthLoop.simps [simp del]

lemma pathLength_short: "length ps < 2 \<Longrightarrow> pathLength ps = 0"
  by (cases ps rule: pathLength.cases) auto

lemma strokeLengthLoop_pathLength:
  "strokeLengthLoop pts (Suc j) len = len + pathLength (drop j pts)"
proof (induction "length pts - Suc j" arbitrary: j len)
  case 0
  then have "length (drop j pts) < 2" by simp
  then have "pathLength (drop j pts) = 0" by (rule pathLength_short)
  with 0 show ?case
    by (subst strokeLengthLoop.simps) simp
next
  case (Suc n)
  then have lt: "Suc j < length pts" by simp
  then have d: "drop j pts = pts ! j # pts ! Suc j # drop (Suc (Suc j)) pts"
    by (simp add: Cons_nth_drop_Suc Suc_lessD)
  from lt have d': "drop (Suc j) pts = pts ! Suc j # drop (Suc (Suc j)) pts"
    by (simp add: Cons_nth_drop_Suc)
  from Suc have "n = length pts - Suc (Suc j)" by simp
  then have "strokeLengthLoop pts (Suc (Suc j)) (len + distance (pts ! j) (pts ! Suc j))
        = len + distance (pts ! j) (pts ! Suc j) + pathLength (drop (Suc j) pts)"
    by (rule Suc.hyps(1))
  with lt show ?case
    by (subst strokeLengthLoop.simps) (simp add: d d')
qed

lemma calculateStrokeLength_pathLength:
  "currentStroke s = Some st \<Longrightarrow> calculateStrokeLength s = pathLength (points st)"
  using strokeLengthLoop_pathLength [of "points st" 0 0]
  by (simp add: calculateStrokeLength_def pathLength_short)


lemma distance_commute: "distance p q = distance q p"
  by (simp add: distance_def Let_def power2_commute [of "px p" "px q", unfolded power2_eq_square]
      power2_commute [of "py p" "py q", unfolded power2_eq_square])

lemma spaced_snoc:
  "spaced d (ps @ [p]) = (spaced d ps \<and> (ps \<noteq> [] \<longrightarrow> d \<le> distance (last ps) p))"
  by (induction d ps rule: spaced.induct) auto

lemma distance_smooth:
  "distance (smooth cfg p q) q = \<bar>1 - SMOOTHING cfg\<bar> * distance p q"
proof -
  have "sqrt (((px p - px q) * (1 - SMOOTHING cfg)) * ((px p - px q) * (1 - SMOOTHING cfg))
            + ((py p - py q) * (1 - SMOOTHING cfg)) * ((py p - py q) * (1 - SMOOTHING cfg)))
      = sqrt ((1 - SMOOTHING cfg)\<^sup>2 * ((px p - px q) * (px p - px q) + (py p - py q) * (py p - py q)))"
    by (simp add: power2_eq_square algebra_simps)
  also have "\<dots> = \<bar>1 - SMOOTHING cfg\<bar> * sqrt ((px p - px q) * (px p - px q) + (py p - py q) * (py p - py q))"
    by (simp add: real_sqrt_mult)
  finally show ?thesis
    by (simp add: distance_def smooth_def Let_def)
qed

text \<open>
  Claim C1. When the store holds a current stroke whose path length (the sum of the
  distances of consecutive points) is below \<open>MIN_STROKE_LENGTH\<close>, or which has at most
  two points, \<open>closeStroke\<close> returns \<open>null\<close>, leaves the store without a current stroke
  and leaves the completed strokes as they were.
\<close>

theorem closeStroke_rejects:
  assumes "currentStroke s = Some st"
    and "pathLength (points st) < MIN_STROKE_LENGTH cfg \<or> length (points st) \<le> 2"
  shows "fst (closeStroke cfg s) = None
       \<and> currentStroke (snd (closeStroke cfg s)) = None
       \<and> completedStrokes (snd (closeStroke cfg s)) = completedStrokes s"
  using assms
  by (auto simp: closeStroke_def calculateStrokeLength_pathLength discardStroke_def)

text \<open>
  The hypotheses of C1 at a stroke of three points and length 9, under a threshold of 100.
\<close>

theorem closeStroke_rejects_witness:
  "currentStroke (drawing [pt 0 0, pt 3 4, pt 3 0]) = Some (strokeOf [pt 0 0, pt 3 4, pt 3 0])
   \<and> pathLength (points (strokeOf [pt 0 0, pt 3 4, pt 3 0])) = 9
   \<and> 9 < MIN_STROKE_LENGTH cfg0
   \<and> fst (closeStroke cfg0 (drawing [pt 0 0, pt 3 4, pt 3 0])) = None
   \<and> currentStroke (snd (closeStroke cfg0 (drawing [pt 0 0, pt 3 4, pt 3 0]))) = None
   \<and> completedStrokes (snd (closeStroke cfg0 (drawing [pt 0 0, pt 3 4, pt 3 0]))) = []"
proof -
  have h1: "currentStroke (drawing [pt 0 0, pt 3 4, pt 3 0]) = Some (strokeOf [pt 0 0, pt 3 4, pt 3 0])"
    by (simp add: drawing_def)
  have len: "pathLength (points (strokeOf [pt 0 0, pt 3 4, pt 3 0])) = 9"
    by (simp add: strokeOf_def pt_def distance_def)
  have h2: "pathLength (points (strokeOf [pt 0 0, pt 3 4, pt 3 0])) < MIN_STROKE_LENGTH cfg0
       \<or> length (points (strokeOf [pt 0 0, pt 3 4, pt 3 0])) \<le> 2"
    by (simp add: len cfg0_def)
  have "completedStrokes (drawing [pt 0 0, pt 3 4, pt 3 0]) = []"
    by (simp add: drawing_def)
  with closeStroke_rejects [OF h1 h2] h1 len show ?thesis
    by (simp add: cfg0_def)
qed

text \<open>
  Claim C10. When no stroke is in progress, \<open>addPoint\<close> returns normally and leaves the
  whole store unchanged, for every point; this holds in all three versions of the class.
\<close>

theorem addPoint_without_stroke:
  "(currentStroke s = None \<longrightarrow> addPoint cfg p s = Inr s)
   \<and> (currentStroke s = None \<longrightarrow> addPoint_smoothing cfg p s = Inr s)
   \<and> (currentStroke l = None \<longrightarrow> addPoint_live cfg p l = Inr l)"
  by (simp add: addPoint_def addPoint_smoothing_def addPoint_live_def)

text \<open>
  C10 at the empty stores.
\<close>

theorem addPoint_without_stroke_witness:
  "currentStroke emptyCanvas = None \<and> currentStroke emptyCanvasLive = None
   \<and> addPoint cfg0 (pt 7 7) emptyCanvas = Inr emptyCanvas
   \<and> addPoint_smoothing cfg0 (pt 7 7) emptyCanvas = Inr emptyCanvas
   \<and> addPoint_live cfg0 (pt 7 7) emptyCanvasLive = Inr emptyCanvasLive"
proof -
  have h1: "currentStroke emptyCanvas = None" by (simp add: emptyCanvas_def)
  have h2: "currentStroke emptyCanvasLive = None" by (simp add: emptyCanvasLive_def)
  from addPoint_without_stroke [of emptyCanvas cfg0 "pt 7 7" emptyCanvasLive] h1 h2
  show ?thesis by simp
qed

text \<open>
  \<open>addPoint\<close> in the three versions, and the spacing of stored points.
\<close>

lemma addPoint_Some:
  "currentStroke s = Some st \<Longrightarrow> points st \<noteq> [] \<Longrightarrow>
   addPoint cfg p s =
     Inr (if MIN_POINT_DISTANCE cfg \<le> distance p (last (points st))
          then s\<lparr>currentStroke := Some (st\<lparr>points := points st @ [p]\<rparr>)\<rparr> else s)"
  by (simp add: addPoint_def Let_def)

lemma addPoint_smoothing_Some:
  "currentStroke s = Some st \<Longrightarrow> points st \<noteq> [] \<Longrightarrow>
   addPoint_smoothing cfg p s =
     Inr (if MIN_POINT_DISTANCE cfg \<le> distance p (last (points st))
          then s\<lparr>currentStroke := Some (st\<lparr>points := points st @ [smooth cfg p (last (points st))]\<rparr>)\<rparr>
          else s)"
  by (simp add: addPoint_smoothing_def Let_def)

lemma addPoint_live_Some:
  "currentStroke l = Some st \<Longrightarrow> points st \<noteq> [] \<Longrightarrow>
   addPoint_live cfg p l =
     Inr (if MIN_POINT_DISTANCE cfg \<le> distance (smoothPoint p l) (last (points st))
          then l\<lparr>livePosition := Some p, smoothedPosition := Some (smoothPoint p l),
                 currentStroke := Some (st\<lparr>points := points st @ [smoothPoint p l]\<rparr>)\<rparr>
          else l\<lparr>livePosition := Some p, smoothedPosition := Some (smoothPoint p l)\<rparr>)"
  by (simp add: addPoint_live_def Let_def)

lemma set_splice1: "set (splice1 xs i) \<subseteq> set xs"
  unfolding splice1_def using set_take_subset [of i xs] set_drop_subset [of "Suc i" xs] by auto

lemma call_spaced:
  assumes "strokesSpaced (MIN_POINT_DISTANCE cfg) s" and "call cfg c s = Inr s'"
  shows "strokesSpaced (MIN_POINT_DISTANCE cfg) s'"
proof (cases c)
  case (StartStroke p col)
  with assms show ?thesis by (auto simp: strokesSpaced_def startStroke_def)
next
  case (AddPoint p)
  with assms show ?thesis
    by (auto simp: strokesSpaced_def addPoint_def Let_def spaced_snoc distance_commute
        split: option.splits if_splits)
next
  case PauseStroke
  with assms show ?thesis by (auto simp: pauseStroke_def)
next
  case CloseStroke
  with assms show ?thesis
    by (auto simp: strokesSpaced_def closeStroke_def discardStroke_def Let_def
        split: option.splits if_splits)
next
  case DiscardStroke
  with assms show ?thesis by (auto simp: strokesSpaced_def discardStroke_def)
next
  case ClearAll
  with assms show ?thesis by (auto simp: strokesSpaced_def clearAll_def)
next
  case (RemoveCompletedStroke stroke)
  with assms show ?thesis
    using set_splice1
    by (fastforce simp: strokesSpaced_def removeCompletedStroke_def list_all_iff
        split: option.splits)
qed

lemma calls_spaced:
  "strokesSpaced (MIN_POINT_DISTANCE cfg) s \<Longrightarrow> calls cfg cs s = Inr s' \<Longrightarrow>
   strokesSpaced (MIN_POINT_DISTANCE cfg) s'"
proof (induction cs arbitrary: s)
  case Nil
  then show ?case by simp
next
  case (Cons c cs)
  then show ?case
    by (auto split: sum.splits dest: call_spaced)
qed

lemma emptyCanvas_spaced: "strokesSpaced d emptyCanvas"
  by (simp add: strokesSpaced_def emptyCanvas_def)


text \<open>
  Claim C6, as amended. While a stroke with at least one point is in progress,
  \<open>addPoint\<close> appends a point exactly when the tested distance from the last stored point
  is at least \<open>MIN_POINT_DISTANCE\<close> (the bound is inclusive), and leaves the point
  sequence unchanged otherwise.
  \<^item> In \<open>src/drawingCanvas.ts\<close> the raw point is tested and stored; in every store reached
    from the empty one, consecutive points of the current and of the completed strokes
    are at least \<open>MIN_POINT_DISTANCE\<close> apart.
  \<^item> In the version with a live position the smoothed point is tested and stored, and the
    spacing is kept.
  \<^item> In the version with smoothing the raw point is tested but \<open>smooth(point, lastPoint)\<close>
    is stored; the stored points are at least \<open>|1 - SMOOTHING| * MIN_POINT_DISTANCE\<close>
    apart.
\<close>

theorem addPoint_spacing:
  assumes "points st \<noteq> []"
  shows
    "(currentStroke s = Some st \<longrightarrow>
        addPoint cfg p s =
          Inr (if MIN_POINT_DISTANCE cfg \<le> distance p (last (points st))
               then s\<lparr>currentStroke := Some (st\<lparr>points := points st @ [p]\<rparr>)\<rparr> else s))
     \<and> (\<forall>cs s'. calls cfg cs emptyCanvas = Inr s' \<longrightarrow> strokesSpaced (MIN_POINT_DISTANCE cfg) s')
     \<and> (currentStroke l = Some st \<longrightarrow>
        addPoint_live cfg p l =
          Inr (if MIN_POINT_DISTANCE cfg \<le> distance (smoothPoint p l) (last (points st))
               then l\<lparr>livePosition := Some p, smoothedPosition := Some (smoothPoint p l),
                      currentStroke := Some (st\<lparr>points := points st @ [smoothPoint p l]\<rparr>)\<rparr>
               else l\<lparr>livePosition := Some p, smoothedPosition := Some (smoothPoint p l)\<rparr>))
     \<and> (spaced (MIN_POINT_DISTANCE cfg) (points st) \<and>
          MIN_POINT_DISTANCE cfg \<le> distance (smoothPoint p l) (last (points st)) \<longrightarrow>
        spaced (MIN_POINT_DISTANCE cfg) (points st @ [smoothPoint p l]))
     \<and> (currentStroke s = Some st \<longrightarrow>
        addPoint_smoothing cfg p s =
          Inr (if MIN_POINT_DISTANCE cfg \<le> distance p (last (points st))
               then s\<lparr>currentStroke :=
                        Some (st\<lparr>points := points st @ [smooth cfg p (last (points st))]\<rparr>)\<rparr>
               else s))
     \<and> (spaced (\<bar>1 - SMOOTHING cfg\<bar> * MIN_POINT_DISTANCE cfg) (points st) \<and>
          MIN_POINT_DISTANCE cfg \<le> distance p (last (points st)) \<longrightarrow>
        spaced (\<bar>1 - SMOOTHING cfg\<bar> * MIN_POINT_DISTANCE cfg)
          (points st @ [smooth cfg p (last (points st))]))"
proof -
  have reach: "\<forall>cs s'. calls cfg cs emptyCanvas = Inr s' \<longrightarrow> strokesSpaced (MIN_POINT_DISTANCE cfg) s'"
    using calls_spaced [OF emptyCanvas_spaced] by blast
  have live: "spaced (MIN_POINT_DISTANCE cfg) (points st) \<and>
          MIN_POINT_DISTANCE cfg \<le> distance (smoothPoint p l) (last (points st)) \<longrightarrow>
        spaced (MIN_POINT_DISTANCE cfg) (points st @ [smoothPoint p l])"
    by (simp add: spaced_snoc distance_commute)
  have "\<bar>1 - SMOOTHING cfg\<bar> * MIN_POINT_DISTANCE cfg
          \<le> \<bar>1 - SMOOTHING cfg\<bar> * distance p (last (points st))"
    if "MIN_POINT_DISTANCE cfg \<le> distance p (last (points st))"
    using that by (simp add: mult_left_mono)
  then have sm: "spaced (\<bar>1 - SMOOTHING cfg\<bar> * MIN_POINT_DISTANCE cfg) (points st) \<and>
          MIN_POINT_DISTANCE cfg \<le> distance p (last (points st)) \<longrightarrow>
        spaced (\<bar>1 - SMOOTHING cfg\<bar> * MIN_POINT_DISTANCE cfg)
          (points st @ [smooth cfg p (last (points st))])"
    using distance_smooth [of cfg p "last (points st)"]
    by (simp add: spaced_snoc distance_commute [of "last (points st)"])
  from assms reach live sm show ?thesis
    using addPoint_Some [of s st cfg p] addPoint_live_Some [of l st cfg p]
      addPoint_smoothing_Some [of s st cfg p]
    by blast
qed


lemma dist_ex1: "distance (pt 3 4) (pt 0 0) = 5"
  by (simp add: distance_def pt_def)

text \<open>
  C6 as stated fails. With a spacing of 5, the point \<open>(3, 4)\<close> is at distance exactly 5 from
  \<open>(0, 0)\<close>: it does not exceed the spacing, and it is appended. In the version with
  smoothing (factor one half) the point \<open>(6, 0)\<close> is accepted and \<open>(3, 0)\<close> is stored, at
  distance 3 from its predecessor.
\<close>

theorem addPoint_spacing_counterexample:
  "addPoint cfg0 (pt 3 4) (drawing [pt 0 0]) = Inr (drawing [pt 0 0, pt 3 4])
   \<and> \<not> MIN_POINT_DISTANCE cfg0 < distance (pt 3 4) (pt 0 0)
   \<and> addPoint_smoothing cfg0 (pt 6 0) (drawing [pt 0 0]) = Inr (drawing [pt 0 0, pt 3 0])
   \<and> distance (pt 0 0) (pt 3 0) < MIN_POINT_DISTANCE cfg0"
  by (simp add: addPoint_def addPoint_smoothing_def smooth_def drawing_def strokeOf_def
      cfg0_def distance_def pt_def)

text \<open>
  The amended C6 at a stroke of one point and the new point \<open>(6, 8)\<close>.
\<close>

theorem addPoint_spacing_witness:
  "points (strokeOf [pt 0 0]) \<noteq> []
   \<and> currentStroke (drawing [pt 0 0]) = Some (strokeOf [pt 0 0])
   \<and> currentStroke (drawingLive [pt 0 0]) = Some (strokeOf [pt 0 0])
   \<and> addPoint cfg0 (pt 6 8) (drawing [pt 0 0]) = Inr (drawing [pt 0 0, pt 6 8])
   \<and> calls cfg0 [StartStroke (pt 0 0) None, AddPoint (pt 6 8), AddPoint (pt 7 8)] emptyCanvas
       = Inr \<lparr>currentStroke = Some \<lparr>points = [pt 0 0, pt 6 8], color = None, width = 4, closed_flag = False\<rparr>,
              completedStrokes = [], allocated = 0\<rparr>
   \<and> strokesSpaced (MIN_POINT_DISTANCE cfg0)
        \<lparr>currentStroke = Some \<lparr>points = [pt 0 0, pt 6 8], color = None, width = 4, closed_flag = False\<rparr>,
         completedStrokes = [], allocated = 0\<rparr>
   \<and> addPoint_live cfg0 (pt 6 8) (drawingLive [pt 0 0])
       = Inr ((drawingLive [pt 0 0, pt 6 8])\<lparr>livePosition := Some (pt 6 8), smoothedPosition := Some (pt 6 8)\<rparr>)
   \<and> spaced (MIN_POINT_DISTANCE cfg0) [pt 0 0, pt 6 8]
   \<and> addPoint_smoothing cfg0 (pt 6 8) (drawing [pt 0 0]) = Inr (drawing [pt 0 0, pt 3 4])
   \<and> spaced (\<bar>1 - SMOOTHING cfg0\<bar> * MIN_POINT_DISTANCE cfg0) [pt 0 0, pt 3 4]"
proof -
  have h: "points (strokeOf [pt 0 0]) \<noteq> []"
    by (simp add: strokeOf_def)
  note T = addPoint_spacing [OF h, where s = "drawing [pt 0 0]" and cfg = cfg0 and p = "pt 6 8"
      and l = "drawingLive [pt 0 0]"]
  have c1: "currentStroke (drawing [pt 0 0]) = Some (strokeOf [pt 0 0])"
    by (simp add: drawing_def)
  have c2: "currentStroke (drawingLive [pt 0 0]) = Some (strokeOf [pt 0 0])"
    by (simp add: drawingLive_def)
  have d: "distance (pt 6 8) (pt 0 0) = 10"
    by (simp add: distance_def pt_def)
  have sp: "smoothPoint (pt 6 8) (drawingLive [pt 0 0]) = pt 6 8"
    by (simp add: smoothPoint_def drawingLive_def)
  have sm: "smooth cfg0 (pt 6 8) (pt 0 0) = pt 3 4"
    by (simp add: smooth_def cfg0_def pt_def)
  have m: "MIN_POINT_DISTANCE cfg0 = 5" "SMOOTHING cfg0 = 1 / 2"
    by (simp_all add: cfg0_def)
  have run: "calls cfg0 [StartStroke (pt 0 0) None, AddPoint (pt 6 8), AddPoint (pt 7 8)] emptyCanvas
       = Inr \<lparr>currentStroke = Some \<lparr>points = [pt 0 0, pt 6 8], color = None, width = 4, closed_flag = False\<rparr>,
              completedStrokes = [], allocated = 0\<rparr>"
    by (simp add: startStroke_def addPoint_def emptyCanvas_def cfg0_def distance_def pt_def)
  have p0: "points (strokeOf [pt 0 0]) = [pt 0 0]"
    by (simp add: strokeOf_def)
  have p1: "(strokeOf [pt 0 0])\<lparr>points := [pt 0 0, pt 6 8]\<rparr> = strokeOf [pt 0 0, pt 6 8]"
     "(strokeOf [pt 0 0])\<lparr>points := [pt 0 0, pt 3 4]\<rparr> = strokeOf [pt 0 0, pt 3 4]"
    by (simp_all add: strokeOf_def)
  have p2: "(drawing [pt 0 0])\<lparr>currentStroke := Some (strokeOf [pt 0 0, pt 6 8])\<rparr> = drawing [pt 0 0, pt 6 8]"
    "(drawing [pt 0 0])\<lparr>currentStroke := Some (strokeOf [pt 0 0, pt 3 4])\<rparr> = drawing [pt 0 0, pt 3 4]"
    by (simp_all add: drawing_def)
  have p3: "(drawingLive [pt 0 0])\<lparr>livePosition := Some (pt 6 8), smoothedPosition := Some (pt 6 8),
        currentStroke := Some (strokeOf [pt 0 0, pt 6 8])\<rparr>
      = (drawingLive [pt 0 0, pt 6 8])\<lparr>livePosition := Some (pt 6 8), smoothedPosition := Some (pt 6 8)\<rparr>"
    by (simp add: drawingLive_def)
  have A: "addPoint cfg0 (pt 6 8) (drawing [pt 0 0]) = Inr (drawing [pt 0 0, pt 6 8])"
    using T [THEN conjunct1, rule_format, OF c1] by (simp add: p0 d m p1 p2)
  have B: "strokesSpaced (MIN_POINT_DISTANCE cfg0)
        \<lparr>currentStroke = Some \<lparr>points = [pt 0 0, pt 6 8], color = None, width = 4, closed_flag = False\<rparr>,
         completedStrokes = [], allocated = 0\<rparr>"
    using T [THEN conjunct2, THEN conjunct1, rule_format, OF run] .
  have C: "addPoint_live cfg0 (pt 6 8) (drawingLive [pt 0 0])
       = Inr ((drawingLive [pt 0 0, pt 6 8])\<lparr>livePosition := Some (pt 6 8), smoothedPosition := Some (pt 6 8)\<rparr>)"
    using T [THEN conjunct2, THEN conjunct2, THEN conjunct1, rule_format, OF c2]
    by (simp add: p0 sp d m p1 p3)
  have D: "spaced (MIN_POINT_DISTANCE cfg0) [pt 0 0, pt 6 8]"
    using T [THEN conjunct2, THEN conjunct2, THEN conjunct2, THEN conjunct1]
    by (simp add: p0 sp d m)
  have E: "addPoint_smoothing cfg0 (pt 6 8) (drawing [pt 0 0]) = Inr (drawing [pt 0 0, pt 3 4])"
    using T [THEN conjunct2, THEN conjunct2, THEN conjunct2, THEN conjunct2, THEN conjunct1,
        rule_format, OF c1]
    by (simp add: p0 sm d m p1 p2)
  have F: "spaced (\<bar>1 - SMOOTHING cfg0\<bar> * MIN_POINT_DISTANCE cfg0) [pt 0 0, pt 3 4]"
    using T [THEN conjunct2, THEN conjunct2, THEN conjunct2, THEN conjunct2, THEN conjunct2]
    by (simp add: p0 sm d m)
  from h c1 c2 A run B C D E F show ?thesis
    by (intro conjI)
qed

text \<open>
  \<open>indexOf\<close> with \<open>splice\<close> removes the first element of the given identity; identities
  stay distinct.
\<close>

lemma splice_indexOf:
  "(case indexOf cs stroke of None \<Rightarrow> cs | Some i \<Rightarrow> splice1 cs i) = withoutFirst (fst stroke) cs"
  by (induction cs) (auto simp: splice1_def split: option.splits)

lemma removeCompletedStroke_withoutFirst:
  "removeCompletedStroke stroke s =
     s\<lparr>completedStrokes := withoutFirst (fst stroke) (completedStrokes s)\<rparr>"
  using splice_indexOf [of "completedStrokes s" stroke]
  by (simp add: removeCompletedStroke_def split: option.splits)

lemma withoutFirst_subset: "set (withoutFirst i cs) \<subseteq> set cs"
  by (induction cs) auto

lemma withoutFirst_keeps: "c \<in> set cs \<Longrightarrow> fst c \<noteq> i \<Longrightarrow> c \<in> set (withoutFirst i cs)"
  by (induction cs) auto

lemma withoutFirst_removes: "distinct (map fst cs) \<Longrightarrow> i \<notin> fst ` set (withoutFirst i cs)"
  by (induction cs) auto

lemma withoutFirst_distinct: "distinct (map fst cs) \<Longrightarrow> distinct (map fst (withoutFirst i cs))"
  using withoutFirst_subset by (induction cs) fastforce+

lemma call_identities_ok:
  assumes "identities_ok s" and "call cfg c s = Inr s'"
  shows "identities_ok s' \<and> allocated s \<le> allocated s'"
proof (cases c)
  case (StartStroke p col)
  with assms show ?thesis by (fastforce simp: identities_ok_def startStroke_def)
next
  case (AddPoint p)
  with assms show ?thesis
    by (fastforce simp: identities_ok_def addPoint_def Let_def split: option.splits if_splits)
next
  case PauseStroke
  with assms show ?thesis by (fastforce simp: pauseStroke_def)
next
  case CloseStroke
  with assms show ?thesis
    by (fastforce simp: identities_ok_def closeStroke_def discardStroke_def Let_def
        split: option.splits if_splits)
next
  case DiscardStroke
  with assms show ?thesis by (fastforce simp: identities_ok_def discardStroke_def)
next
  case ClearAll
  with assms show ?thesis by (fastforce simp: identities_ok_def clearAll_def)
next
  case (RemoveCompletedStroke stroke)
  with assms show ?thesis
    using withoutFirst_subset [of "fst stroke" "completedStrokes s"]
    by (fastforce simp: identities_ok_def removeCompletedStroke_withoutFirst withoutFirst_distinct)
qed

lemma calls_identities_ok:
  "identities_ok s \<Longrightarrow> calls cfg cs s = Inr s' \<Longrightarrow> identities_ok s' \<and> allocated s \<le> allocated s'"
proof (induction cs arbitrary: s)
  case Nil
  then show ?case by simp
next
  case (Cons c cs)
  then obtain s1 where 1: "call cfg c s = Inr s1" and 2: "calls cfg cs s1 = Inr s'"
    by (auto split: sum.splits)
  from call_identities_ok [OF Cons.prems(1) 1] Cons.IH [OF _ 2] show ?case
    by auto
qed

lemma call_keeps:
  assumes "stroke \<in> set (completedStrokes s)" and "\<not> drops stroke c" and "call cfg c s = Inr s'"
  shows "stroke \<in> set (completedStrokes s')"
proof (cases c)
  case (StartStroke p col)
  with assms show ?thesis by (auto simp: startStroke_def)
next
  case (AddPoint p)
  with assms show ?thesis
    by (auto simp: addPoint_def Let_def split: option.splits if_splits)
next
  case PauseStroke
  with assms show ?thesis by (auto simp: pauseStroke_def)
next
  case CloseStroke
  with assms show ?thesis
    by (auto simp: closeStroke_def discardStroke_def Let_def split: option.splits if_splits)
next
  case DiscardStroke
  with assms show ?thesis by (auto simp: discardStroke_def)
next
  case ClearAll
  with assms show ?thesis by simp
next
  case (RemoveCompletedStroke other)
  with assms show ?thesis
    using withoutFirst_keeps [of stroke "completedStrokes s" "fst other"]
    by (auto simp: removeCompletedStroke_withoutFirst)
qed

lemma calls_keep:
  "stroke \<in> set (completedStrokes s) \<Longrightarrow> \<forall>c \<in> set cs. \<not> drops stroke c \<Longrightarrow>
   calls cfg cs s = Inr s' \<Longrightarrow> stroke \<in> set (completedStrokes s')"
proof (induction cs arbitrary: s)
  case Nil
  then show ?case by simp
next
  case (Cons c cs)
  then obtain s1 where 1: "call cfg c s = Inr s1" and 2: "calls cfg cs s1 = Inr s'"
    by (auto split: sum.splits)
  from Cons.prems have "stroke \<in> set (completedStrokes s1)"
    using call_keeps [OF _ _ 1] by simp
  with Cons.IH [OF _ _ 2] Cons.prems(2) show ?case by simp
qed

lemma removeCompletedStroke_removes:
  "identities_ok s \<Longrightarrow> fst stroke \<notin> fst ` set (completedStrokes (removeCompletedStroke stroke s))"
  using withoutFirst_removes [of "completedStrokes s" "fst stroke"]
  by (simp add: removeCompletedStroke_withoutFirst identities_ok_def)

lemma closeStroke_valid:
  assumes "currentStroke s = Some st" and "2 < length (points st)"
    and "MIN_STROKE_LENGTH cfg \<le> pathLength (points st)"
  shows "closeStroke cfg s =
           (Some (allocated s, st\<lparr>closed_flag := True\<rparr>),
            s\<lparr>currentStroke := None,
              completedStrokes := completedStrokes s @ [(allocated s, st\<lparr>closed_flag := True\<rparr>)],
              allocated := Suc (allocated s)\<rparr>)"
  using assms by (simp add: closeStroke_def calculateStrokeLength_pathLength Let_def)

lemma closeStroke_identities_ok:
  "identities_ok s \<Longrightarrow> identities_ok (snd (closeStroke cfg s))"
  using call_identities_ok [of s cfg CloseStroke] by simp

text \<open>
  Claim C5, as amended. When the store holds a current stroke of more than two points
  whose path length is at least \<open>MIN_STROKE_LENGTH\<close>, \<open>closeStroke\<close> returns a stroke with
  \<open>closed = true\<close> and the same points; the returned object is in the completed set and
  there is no current stroke any more. The object stays in the completed set through every
  sequence of calls that contains neither \<open>clearAll\<close> nor \<open>removeCompletedStroke\<close> with
  that object, and \<open>removeCompletedStroke\<close> with that object, whenever it is called, leaves
  a completed set without it.
\<close>

theorem closeStroke_completes:
  assumes "currentStroke s = Some st" and "2 < length (points st)"
    and "MIN_STROKE_LENGTH cfg \<le> pathLength (points st)"
    and "identities_ok s"
    and "closeStroke cfg s = (r, s')"
  shows "\<exists>stroke. r = Some stroke
       \<and> closed_flag (snd stroke) \<and> points (snd stroke) = points st
       \<and> stroke \<in> set (completedStrokes s')
       \<and> currentStroke s' = None
       \<and> (\<forall>cs s''. (\<forall>c \<in> set cs. \<not> drops stroke c) \<and> calls cfg cs s' = Inr s''
             \<longrightarrow> stroke \<in> set (completedStrokes s''))
       \<and> (\<forall>cs s''. calls cfg cs s' = Inr s''
             \<longrightarrow> stroke \<notin> set (completedStrokes (removeCompletedStroke stroke s'')))"
proof -
  let ?stroke = "(allocated s, st\<lparr>closed_flag := True\<rparr>)"
  from closeStroke_valid [OF assms(1-3), of ] assms(5)
  have r: "r = Some ?stroke"
    and s': "s' = s\<lparr>currentStroke := None,
              completedStrokes := completedStrokes s @ [?stroke],
              allocated := Suc (allocated s)\<rparr>"
    by simp_all
  have mem: "?stroke \<in> set (completedStrokes s')" by (simp add: s')
  have ok': "identities_ok s'"
    using closeStroke_identities_ok [OF assms(4), of cfg] assms(5) by simp
  have keep: "\<forall>cs s''. (\<forall>c \<in> set cs. \<not> drops ?stroke c) \<and> calls cfg cs s' = Inr s''
             \<longrightarrow> ?stroke \<in> set (completedStrokes s'')"
    using calls_keep [OF mem] by blast
  have gone: "\<forall>cs s''. calls cfg cs s' = Inr s''
             \<longrightarrow> ?stroke \<notin> set (completedStrokes (removeCompletedStroke ?stroke s''))"
  proof (intro allI impI)
    fix cs s''
    assume "calls cfg cs s' = Inr s''"
    with calls_identities_ok [OF ok'] have "identities_ok s''" by blast
    from removeCompletedStroke_removes [OF this, of ?stroke]
    show "?stroke \<notin> set (completedStrokes (removeCompletedStroke ?stroke s''))"
      by force
  qed
  from r mem keep gone show ?thesis
    by (intro exI [of _ ?stroke]) (simp add: s')
qed


lemma square5_length: "pathLength square5 = 140"
  by (simp add: square5_def pt_def distance_def)

lemma closeStroke_square5:
  "closeStroke cfg0 (drawing square5) = (Some closedSquare, completedCanvas)"
proof -
  have "currentStroke (drawing square5) = Some (strokeOf square5)"
    by (simp add: drawing_def)
  moreover have "2 < length (points (strokeOf square5))"
    by (simp add: strokeOf_def square5_def)
  moreover have "MIN_STROKE_LENGTH cfg0 \<le> pathLength (points (strokeOf square5))"
    by (simp add: strokeOf_def square5_length cfg0_def)
  ultimately show ?thesis
    by (simp add: closeStroke_valid drawing_def strokeOf_def closedSquare_def completedCanvas_def)
qed

text \<open>
  C5 as stated fails: \<open>clearAll\<close> takes the closed stroke out of the completed set although
  \<open>removeCompletedStroke\<close> was never called.
\<close>

theorem closeStroke_completes_counterexample:
  "2 < length square5 \<and> MIN_STROKE_LENGTH cfg0 \<le> pathLength square5
   \<and> currentStroke (drawing square5) = Some (strokeOf square5)
   \<and> closeStroke cfg0 (drawing square5) = (Some closedSquare, completedCanvas)
   \<and> closedSquare \<in> set (completedStrokes completedCanvas)
   \<and> ClearAll \<noteq> RemoveCompletedStroke closedSquare
   \<and> calls cfg0 [ClearAll] completedCanvas
       = Inr \<lparr>currentStroke = None, completedStrokes = [], allocated = 1\<rparr>
   \<and> closedSquare \<notin> set (completedStrokes \<lparr>currentStroke = None, completedStrokes = [], allocated = 1\<rparr>)"
proof -
  have "2 < length square5"
    by (simp add: square5_def)
  moreover have "MIN_STROKE_LENGTH cfg0 \<le> pathLength square5"
    by (simp add: square5_length cfg0_def)
  moreover have "currentStroke (drawing square5) = Some (strokeOf square5)"
    by (simp add: drawing_def)
  moreover have "closedSquare \<in> set (completedStrokes completedCanvas)"
    by (simp add: completedCanvas_def)
  moreover have "calls cfg0 [ClearAll] completedCanvas
       = Inr \<lparr>currentStroke = None, completedStrokes = [], allocated = 1\<rparr>"
    by (simp add: completedCanvas_def clearAll_def)
  ultimately show ?thesis
    using closeStroke_square5 by simp
qed

text \<open>
  The amended C5 at a closed path of five points and length 140.
\<close>

theorem closeStroke_completes_witness:
  "currentStroke (drawing square5) = Some (strokeOf square5)
   \<and> 2 < length (points (strokeOf square5))
   \<and> MIN_STROKE_LENGTH cfg0 \<le> pathLength (points (strokeOf square5))
   \<and> identities_ok (drawing square5)
   \<and> closeStroke cfg0 (drawing square5) = (Some closedSquare, completedCanvas)
   \<and> closed_flag (snd closedSquare)
   \<and> points (snd closedSquare) = points (strokeOf square5)
   \<and> closedSquare \<in> set (completedStrokes completedCanvas)
   \<and> currentStroke completedCanvas = None
   \<and> calls cfg0 [StartStroke (pt 1 1) None, AddPoint (pt 4 5)] completedCanvas
        = Inr (completedCanvas\<lparr>currentStroke :=
                 Some \<lparr>points = [pt 1 1, pt 4 5], color = None, width = 4, closed_flag = False\<rparr>\<rparr>)
   \<and> closedSquare \<in> set (completedStrokes (completedCanvas\<lparr>currentStroke :=
                 Some \<lparr>points = [pt 1 1, pt 4 5], color = None, width = 4, closed_flag = False\<rparr>\<rparr>))
   \<and> closedSquare \<notin> set (completedStrokes (removeCompletedStroke closedSquare
          (completedCanvas\<lparr>currentStroke :=
                 Some \<lparr>points = [pt 1 1, pt 4 5], color = None, width = 4, closed_flag = False\<rparr>\<rparr>)))"
proof -
  let ?s2 = "completedCanvas\<lparr>currentStroke :=
                 Some \<lparr>points = [pt 1 1, pt 4 5], color = None, width = 4, closed_flag = False\<rparr>\<rparr>"
  have h1: "currentStroke (drawing square5) = Some (strokeOf square5)"
    by (simp add: drawing_def)
  have h2: "2 < length (points (strokeOf square5))"
    by (simp add: strokeOf_def square5_def)
  have h3: "MIN_STROKE_LENGTH cfg0 \<le> pathLength (points (strokeOf square5))"
    by (simp add: strokeOf_def square5_length cfg0_def)
  have h4: "identities_ok (drawing square5)"
    by (simp add: identities_ok_def drawing_def)
  note h5 = closeStroke_square5
  have run: "calls cfg0 [StartStroke (pt 1 1) None, AddPoint (pt 4 5)] completedCanvas = Inr ?s2"
    by (simp add: startStroke_def addPoint_def completedCanvas_def cfg0_def distance_def pt_def)
  have nd: "\<forall>c \<in> set [StartStroke (pt 1 1) None, AddPoint (pt 4 5)]. \<not> drops closedSquare c"
    by simp
  from closeStroke_completes [OF h1 h2 h3 h4 h5]
  obtain stroke where st: "Some closedSquare = Some stroke"
    and c: "closed_flag (snd stroke)" "points (snd stroke) = points (strokeOf square5)"
      "stroke \<in> set (completedStrokes completedCanvas)" "currentStroke completedCanvas = None"
    and keep: "\<forall>cs s''. (\<forall>c \<in> set cs. \<not> drops stroke c) \<and> calls cfg0 cs completedCanvas = Inr s''
             \<longrightarrow> stroke \<in> set (completedStrokes s'')"
    and gone: "\<forall>cs s''. calls cfg0 cs completedCanvas = Inr s''
             \<longrightarrow> stroke \<notin> set (completedStrokes (removeCompletedStroke stroke s''))"
    by blast
  from st have eq: "stroke = closedSquare" by simp
  from keep nd run have k: "closedSquare \<in> set (completedStrokes ?s2)"
    unfolding eq by blast
  from gone run have g: "closedSquare \<notin> set (completedStrokes (removeCompletedStroke closedSquare ?s2))"
    unfolding eq by blast
  from h1 h2 h3 h4 h5 c [unfolded eq] run k g show ?thesis
    by (intro conjI)
qed

text \<open>
  What each handler does to the two hold timers and to the last gesture, and when it clears
  or closes.
\<close>

lemma since_held: "since g t0 h \<Longrightarrow> d \<le> t - t0 \<Longrightarrow> held g d t h"
  by (induction g t0 h rule: since.induct) auto

lemma since_head: "since g t0 h \<Longrightarrow> \<exists>t' older. h = (g, t') # older"
  by (cases h) auto

lemma closeAndInflate_fields:
  assumes "closeAndInflate cfg t a = (es, a')"
  shows "palmHoldStart a' = palmHoldStart a \<and> fistHoldStart a' = fistHoldStart a
       \<and> lastGestureState a' = lastGestureState a \<and> grabbedObject a' = grabbedObject a
       \<and> ObjectManagerClearAll \<notin> set es"
  using assms
  by (auto simp: closeAndInflate_def closeAndInflate_animate_def createBalloon_def Let_def
      split: prod.splits option.splits if_splits)

lemma handleDraw_fields:
  assumes "handleDraw cfg fr p a = Inr (es, a')"
  shows "palmHoldStart a' = palmHoldStart a \<and> fistHoldStart a' = fistHoldStart a
       \<and> lastGestureState a' = lastGestureState a
       \<and> ObjectManagerClearAll \<notin> set es \<and> \<not> list_ex isClosure es"
  using assms
  by (auto simp: handleDraw_def split: option.splits if_splits sum.splits)

lemma handlePinch_fields:
  assumes "handlePinch fr a = (es, a')"
  shows "palmHoldStart a' = palmHoldStart a \<and> fistHoldStart a' = fistHoldStart a
       \<and> lastGestureState a' = lastGestureState a
       \<and> ObjectManagerClearAll \<notin> set es \<and> \<not> list_ex isClosure es"
  using assms
  by (auto simp: handlePinch_def Let_def split: option.splits if_splits)

lemma handleSwipe_fields:
  assumes "handleSwipe fr p a = (es, a')"
  shows "palmHoldStart a' = palmHoldStart a \<and> fistHoldStart a' = fistHoldStart a
       \<and> lastGestureState a' = lastGestureState a
       \<and> ObjectManagerClearAll \<notin> set es \<and> \<not> list_ex isClosure es"
  using assms
  by (auto simp: handleSwipe_def split: option.splits)

lemma handlePalm_fields:
  assumes "handlePalm cfg fr a = (es, a')"
  shows "fistHoldStart a' = fistHoldStart a \<and> lastGestureState a' = lastGestureState a
       \<and> ObjectManagerClearAll \<notin> set es
       \<and> (list_ex isClosure es \<longrightarrow>
            PALM_HOLD_TIME cfg \<le> now fr - (if palmHoldStart a = 0 then now fr else palmHoldStart a))
       \<and> (palmHoldStart a' = 0 \<or> palmHoldStart a' = palmHoldStart a \<or> palmHoldStart a' = now fr)"
proof -
  obtain es1 a1 where g: "(case grabbedObject a of
                         Some grabbed \<Rightarrow> ([ReleaseObject grabbed], a\<lparr>grabbedObject := None\<rparr>)
                       | None \<Rightarrow> ([], a)) = (es1, a1)"
    by (cases "grabbedObject a") auto
  then have a1: "palmHoldStart a1 = palmHoldStart a" "fistHoldStart a1 = fistHoldStart a"
      "lastGestureState a1 = lastGestureState a"
    and es1: "ObjectManagerClearAll \<notin> set es1" "\<not> list_ex isClosure es1"
    by (auto split: option.splits)
  define a2 where "a2 = (if palmHoldStart a1 = 0 then a1\<lparr>palmHoldStart := now fr\<rparr> else a1)"
  have a2: "palmHoldStart a2 = (if palmHoldStart a = 0 then now fr else palmHoldStart a)"
      "fistHoldStart a2 = fistHoldStart a" "lastGestureState a2 = lastGestureState a"
    by (simp_all add: a2_def a1)
  show ?thesis
  proof (cases "PALM_HOLD_TIME cfg \<le> now fr - palmHoldStart a2")
    case True
    obtain es2 a3 where c: "closeAndInflate cfg (now fr) a2 = (es2, a3)"
      by (cases "closeAndInflate cfg (now fr) a2")
    with True assms g have "es = es1 @ es2" "a' = a3\<lparr>palmHoldStart := 0\<rparr>"
      by (simp_all add: handlePalm_def Let_def a2_def)
    with closeAndInflate_fields [OF c] a2 es1 True show ?thesis
      by auto
  next
    case False
    with assms g have "es = es1" "a' = a2"
      by (simp_all add: handlePalm_def Let_def a2_def)
    with a2 es1 show ?thesis by auto
  qed
qed

lemma handleFist_fields:
  assumes "handleFist cfg fr a = (es, a')"
  shows "palmHoldStart a' = palmHoldStart a \<and> lastGestureState a' = lastGestureState a
       \<and> \<not> list_ex isClosure es
       \<and> (ObjectManagerClearAll \<in> set es \<longrightarrow>
            FIST_HOLD_TIME cfg \<le> now fr - (if fistHoldStart a = 0 then now fr else fistHoldStart a))
       \<and> (fistHoldStart a' = 0 \<or> fistHoldStart a' = fistHoldStart a \<or> fistHoldStart a' = now fr)"
  using assms
  by (auto simp: handleFist_def AirCanvas_clearAll_def Let_def split: if_splits prod.splits)

lemma handleGesture_summary:
  assumes "handleGesture cfg fr state a = Inr (es, a')"
  shows "lastGestureState a' = lastGestureState a"
    and "gestureChanged a state \<longrightarrow> palmHoldStart a' = 0 \<and> fistHoldStart a' = 0"
    and "ObjectManagerClearAll \<in> set es \<longrightarrow>
           current state = fist \<and>
           FIST_HOLD_TIME cfg \<le> now fr - (if fistHoldStart a = 0 then now fr else fistHoldStart a)"
    and "list_ex isClosure es \<longrightarrow>
           current state = palm \<and>
           PALM_HOLD_TIME cfg \<le> now fr - (if palmHoldStart a = 0 then now fr else palmHoldStart a)"
    and "fistHoldStart a' \<noteq> 0 \<longrightarrow>
           \<not> gestureChanged a state \<and>
           (fistHoldStart a' = fistHoldStart a \<or> current state = fist \<and> fistHoldStart a' = now fr)"
    and "palmHoldStart a' \<noteq> 0 \<longrightarrow>
           \<not> gestureChanged a state \<and>
           (palmHoldStart a' = palmHoldStart a \<or> current state = palm \<and> palmHoldStart a' = now fr)"
proof -
  obtain es1 a1 where h: "(case current state of
              draw \<Rightarrow> handleDraw cfg fr (indexTip fr) a
            | pinch \<Rightarrow> Inr (handlePinch fr a)
            | palm \<Rightarrow> Inr (handlePalm cfg fr a)
            | fist \<Rightarrow> Inr (handleFist cfg fr a)
            | swipe \<Rightarrow> Inr (handleSwipe fr (indexTip fr) a)
            | none \<Rightarrow>
                (case grabbedObject a of
                   Some grabbed \<Rightarrow> Inr ([ReleaseObject grabbed], a\<lparr>grabbedObject := None\<rparr>)
                 | None \<Rightarrow> Inr ([], a))) = Inr (es1, a1)"
    and es: "es = es1"
    and a': "a' = (case lastGestureState a1 of
                 Some lastState \<Rightarrow>
                   if current state \<noteq> current lastState
                   then a1\<lparr>palmHoldStart := 0, fistHoldStart := 0\<rparr>
                   else a1
               | None \<Rightarrow> a1)"
    using assms by (auto simp: handleGesture_def split: sum.splits)
  have mid: "lastGestureState a1 = lastGestureState a
      \<and> (ObjectManagerClearAll \<in> set es1 \<longrightarrow>
           current state = fist \<and>
           FIST_HOLD_TIME cfg \<le> now fr - (if fistHoldStart a = 0 then now fr else fistHoldStart a))
      \<and> (list_ex isClosure es1 \<longrightarrow>
           current state = palm \<and>
           PALM_HOLD_TIME cfg \<le> now fr - (if palmHoldStart a = 0 then now fr else palmHoldStart a))
      \<and> (fistHoldStart a1 = 0 \<or> fistHoldStart a1 = fistHoldStart a
           \<or> current state = fist \<and> fistHoldStart a1 = now fr)
      \<and> (palmHoldStart a1 = 0 \<or> palmHoldStart a1 = palmHoldStart a
           \<or> current state = palm \<and> palmHoldStart a1 = now fr)"
  proof (cases "current state")
    case none
    with h show ?thesis by (auto split: option.splits)
  next
    case draw
    with h handleDraw_fields [of cfg fr "indexTip fr" a es1 a1] show ?thesis by simp
  next
    case pinch
    with h handlePinch_fields [of fr a es1 a1] show ?thesis by simp
  next
    case palm
    with h handlePalm_fields [of cfg fr a es1 a1] show ?thesis by auto
  next
    case fist
    with h handleFist_fields [of cfg fr a es1 a1] show ?thesis by auto
  next
    case swipe
    with h handleSwipe_fields [of fr "indexTip fr" a es1 a1] show ?thesis by simp
  qed
  from mid a' show "lastGestureState a' = lastGestureState a"
    by (auto split: option.splits)
  from mid a' show "gestureChanged a state \<longrightarrow> palmHoldStart a' = 0 \<and> fistHoldStart a' = 0"
    by (auto simp: gestureChanged_def split: option.splits)
  from mid es show "ObjectManagerClearAll \<in> set es \<longrightarrow>
           current state = fist \<and>
           FIST_HOLD_TIME cfg \<le> now fr - (if fistHoldStart a = 0 then now fr else fistHoldStart a)"
    by simp
  from mid es show "list_ex isClosure es \<longrightarrow>
           current state = palm \<and>
           PALM_HOLD_TIME cfg \<le> now fr - (if palmHoldStart a = 0 then now fr else palmHoldStart a)"
    by simp
  from mid a' show "fistHoldStart a' \<noteq> 0 \<longrightarrow>
           \<not> gestureChanged a state \<and>
           (fistHoldStart a' = fistHoldStart a \<or> current state = fist \<and> fistHoldStart a' = now fr)"
    by (auto simp: gestureChanged_def split: option.splits if_splits)
  from mid a' show "palmHoldStart a' \<noteq> 0 \<longrightarrow>
           \<not> gestureChanged a state \<and>
           (palmHoldStart a' = palmHoldStart a \<or> current state = palm \<and> palmHoldStart a' = now fr)"
    by (auto simp: gestureChanged_def split: option.splits if_splits)
qed

lemma onHandResults_lost:
  assumes "hand fr = None"
  shows "onHandResults cfg fr a =
           Inr (if handDetected a then [ShowStatus ShowYourHand None] else [],
                a\<lparr>handDetected := False, currentLandmarks := None, isDrawing := False\<rparr>)"
proof -
  have "(if isDrawing a then a\<lparr>handDetected := False, currentLandmarks := None, isDrawing := False\<rparr>
         else a\<lparr>handDetected := False, currentLandmarks := None\<rparr>)
        = a\<lparr>handDetected := False, currentLandmarks := None, isDrawing := False\<rparr>"
    by (cases a) simp
  with assms show ?thesis
    by (simp add: onHandResults_def Let_def)
qed

lemma onHandResults_tracked:
  assumes "onHandResults cfg fr a = Inr (es, a')" and "hand fr = Some lm"
  shows "lastGestureState a' = Some (detected fr)"
    and "gestureChanged a (detected fr) \<longrightarrow> palmHoldStart a' = 0 \<and> fistHoldStart a' = 0"
    and "ObjectManagerClearAll \<in> set es \<longrightarrow>
           current (detected fr) = fist \<and>
           FIST_HOLD_TIME cfg \<le> now fr - (if fistHoldStart a = 0 then now fr else fistHoldStart a)"
    and "list_ex isClosure es \<longrightarrow>
           current (detected fr) = palm \<and>
           PALM_HOLD_TIME cfg \<le> now fr - (if palmHoldStart a = 0 then now fr else palmHoldStart a)"
    and "fistHoldStart a' \<noteq> 0 \<longrightarrow>
           \<not> gestureChanged a (detected fr) \<and>
           (fistHoldStart a' = fistHoldStart a \<or>
            current (detected fr) = fist \<and> fistHoldStart a' = now fr)"
    and "palmHoldStart a' \<noteq> 0 \<longrightarrow>
           \<not> gestureChanged a (detected fr) \<and>
           (palmHoldStart a' = palmHoldStart a \<or>
            current (detected fr) = palm \<and> palmHoldStart a' = now fr)"
proof -
  let ?a1 = "a\<lparr>handDetected := True, currentLandmarks := Some lm\<rparr>"
  let ?es1 = "if handDetected a then [] else [HideStatus]"
  from assms obtain es2 a2 where h: "handleGesture cfg fr (detected fr) ?a1 = Inr (es2, a2)"
    and es: "es = ?es1 @ es2" and a': "a' = a2\<lparr>lastGestureState := Some (detected fr)\<rparr>"
    by (auto simp: onHandResults_def Let_def split: sum.splits if_splits)
  have c: "gestureChanged ?a1 (detected fr) = gestureChanged a (detected fr)"
    by (simp add: gestureChanged_def)
  note s = handleGesture_summary [OF h, unfolded c]
  from a' show "lastGestureState a' = Some (detected fr)" by simp
  from s(2) a' show "gestureChanged a (detected fr) \<longrightarrow> palmHoldStart a' = 0 \<and> fistHoldStart a' = 0"
    by simp
  from s(3) es show "ObjectManagerClearAll \<in> set es \<longrightarrow>
           current (detected fr) = fist \<and>
           FIST_HOLD_TIME cfg \<le> now fr - (if fistHoldStart a = 0 then now fr else fistHoldStart a)"
    by (simp split: if_splits)
  from s(4) es show "list_ex isClosure es \<longrightarrow>
           current (detected fr) = palm \<and>
           PALM_HOLD_TIME cfg \<le> now fr - (if palmHoldStart a = 0 then now fr else palmHoldStart a)"
    by (simp split: if_splits)
  from s(5) a' show "fistHoldStart a' \<noteq> 0 \<longrightarrow>
           \<not> gestureChanged a (detected fr) \<and>
           (fistHoldStart a' = fistHoldStart a \<or>
            current (detected fr) = fist \<and> fistHoldStart a' = now fr)"
    by simp
  from s(6) a' show "palmHoldStart a' \<noteq> 0 \<longrightarrow>
           \<not> gestureChanged a (detected fr) \<and>
           (palmHoldStart a' = palmHoldStart a \<or>
            current (detected fr) = palm \<and> palmHoldStart a' = now fr)"
    by simp
qed

text \<open>
  The agreement of the timers with the tracked frames is kept by every callback.
\<close>

lemma timers_ok_unchanged:
  "timers_ok a h \<Longrightarrow> lastGestureState a' = lastGestureState a \<Longrightarrow>
   palmHoldStart a' = palmHoldStart a \<Longrightarrow> fistHoldStart a' = fistHoldStart a \<Longrightarrow> timers_ok a' h"
  by (simp add: timers_ok_def)

lemma timers_ok_tracked:
  assumes ok: "timers_ok a h" and r: "onHandResults cfg fr a = Inr (es, a')" and lm: "hand fr = Some lm"
  shows "timers_ok a' ((current (detected fr), now fr) # h)"
proof -
  note s = onHandResults_tracked [OF r lm]
  have same: "current (detected fr) = g" if "\<not> gestureChanged a (detected fr)" and "since g t0 h" for g t0
  proof -
    from that(2) obtain t' older where "h = (g, t') # older" using since_head by blast
    with ok obtain l where "lastGestureState a = Some l" "current l = g"
      by (auto simp: timers_ok_def)
    with that(1) show ?thesis by (simp add: gestureChanged_def)
  qed
  have f: "since fist (fistHoldStart a') ((current (detected fr), now fr) # h)" if "fistHoldStart a' \<noteq> 0"
  proof -
    from s(5) that have nc: "\<not> gestureChanged a (detected fr)"
      and d: "fistHoldStart a' = fistHoldStart a \<or>
            current (detected fr) = fist \<and> fistHoldStart a' = now fr"
      by simp_all
    from d show ?thesis
    proof
      assume e: "fistHoldStart a' = fistHoldStart a"
      with that ok have "since fist (fistHoldStart a') h" by (simp add: timers_ok_def)
      with same [OF nc this] show ?thesis by simp
    next
      assume "current (detected fr) = fist \<and> fistHoldStart a' = now fr"
      then show ?thesis by simp
    qed
  qed
  have p: "since palm (palmHoldStart a') ((current (detected fr), now fr) # h)" if "palmHoldStart a' \<noteq> 0"
  proof -
    from s(6) that have nc: "\<not> gestureChanged a (detected fr)"
      and d: "palmHoldStart a' = palmHoldStart a \<or>
            current (detected fr) = palm \<and> palmHoldStart a' = now fr"
      by simp_all
    from d show ?thesis
    proof
      assume e: "palmHoldStart a' = palmHoldStart a"
      with that ok have "since palm (palmHoldStart a') h" by (simp add: timers_ok_def)
      with same [OF nc this] show ?thesis by simp
    next
      assume "current (detected fr) = palm \<and> palmHoldStart a' = now fr"
      then show ?thesis by simp
    qed
  qed
  from s(1) f p show ?thesis
    by (simp add: timers_ok_def)
qed

lemma step_timers_ok:
  assumes ok: "timers_ok a h" and r: "step cfg ev a = Inr (es, a')"
  shows "timers_ok a' ((case tracked ev of None \<Rightarrow> [] | Some f \<Rightarrow> [f]) @ h)"
proof (cases ev)
  case (HandResults fr)
  show ?thesis
  proof (cases "hand fr")
    case None
    with r HandResults have "a' = a\<lparr>handDetected := False, currentLandmarks := None, isDrawing := False\<rparr>"
      by (simp add: onHandResults_lost)
    with ok None HandResults show ?thesis by (simp add: timers_ok_def)
  next
    case (Some lm)
    with timers_ok_tracked [OF ok _ Some] r HandResults show ?thesis by simp
  qed
next
  case (AnimationFrame stroke startTime t)
  with r ok show ?thesis
    by (auto simp: closeAndInflate_animate_def createBalloon_def Let_def timers_ok_def
        split: if_splits)
next
  case (CreateSettled stroke b)
  with r ok show ?thesis
    by (auto simp: createBalloon_resume_def timers_ok_def split: if_splits)
next
  case ClearSettled
  with r ok show ?thesis by (auto simp: clearAll_resume_def)
next
  case (RenderFrame t)
  with r ok show ?thesis by (auto simp: animate_def Let_def timers_ok_def)
qed

lemma history_Cons:
  "history (ev # evs) = history evs @ (case tracked ev of None \<Rightarrow> [] | Some f \<Rightarrow> [f])"
  by (simp add: history_def split: option.splits)

lemma history_snoc:
  "history (evs @ [ev]) = (case tracked ev of None \<Rightarrow> [] | Some f \<Rightarrow> [f]) @ history evs"
  by (simp add: history_def map_filter_def split: option.splits)

lemma run_timers_ok:
  "timers_ok a h \<Longrightarrow> run cfg evs a = Inr (es, a') \<Longrightarrow> timers_ok a' (history evs @ h)"
proof (induction evs arbitrary: a h es)
  case Nil
  then show ?case by (simp add: history_def)
next
  case (Cons ev evs)
  from Cons.prems(2) obtain es1 a1 es2 where 1: "step cfg ev a = Inr (es1, a1)"
    and 2: "run cfg evs a1 = Inr (es2, a')"
    by (auto split: sum.splits prod.splits)
  from Cons.IH [OF step_timers_ok [OF Cons.prems(1) 1] 2] show ?case
    by (simp add: history_Cons)
qed

lemma initial_timers_ok: "timers_ok initialAirCanvas []"
  by (simp add: timers_ok_def initialAirCanvas_def)

text \<open>
  No callback throws: the stroke in progress always has a point, so \<open>addPoint\<close> finds a last
  point.
\<close>

lemma closeStroke_nonEmpty: "strokeNonEmpty (snd (closeStroke cfg c))"
  by (auto simp: strokeNonEmpty_def closeStroke_def discardStroke_def Let_def split: option.splits)

lemma handleDraw_returns:
  assumes "strokeNonEmpty (drawingCanvas a)"
  shows "\<exists>es a'. handleDraw cfg fr p a = Inr (es, a') \<and> strokeNonEmpty (drawingCanvas a')"
  using assms
  by (auto simp: handleDraw_def strokeNonEmpty_def startStroke_def addPoint_def Let_def
      split: option.splits)

lemma handlePinch_nonEmpty:
  "strokeNonEmpty (drawingCanvas a) \<Longrightarrow> strokeNonEmpty (drawingCanvas (snd (handlePinch fr a)))"
  by (auto simp: handlePinch_def pauseStroke_def Let_def split: option.splits)

lemma closeAndInflate_nonEmpty:
  "closeAndInflate cfg t a = (es, a') \<Longrightarrow> strokeNonEmpty (drawingCanvas a')"
  using closeStroke_nonEmpty [of cfg "drawingCanvas a"]
  by (auto simp: closeAndInflate_def closeAndInflate_animate_def createBalloon_def Let_def
      split: prod.splits option.splits if_splits)

lemma handlePalm_nonEmpty:
  "strokeNonEmpty (drawingCanvas a) \<Longrightarrow> strokeNonEmpty (drawingCanvas (snd (handlePalm cfg fr a)))"
  by (auto simp: handlePalm_def Let_def split: option.splits prod.splits
      dest: closeAndInflate_nonEmpty)

lemma handleFist_nonEmpty:
  "strokeNonEmpty (drawingCanvas a) \<Longrightarrow> strokeNonEmpty (drawingCanvas (snd (handleFist cfg fr a)))"
  by (auto simp: handleFist_def AirCanvas_clearAll_def clearAll_def strokeNonEmpty_def Let_def)

lemma handleSwipe_nonEmpty:
  "strokeNonEmpty (drawingCanvas a) \<Longrightarrow> strokeNonEmpty (drawingCanvas (snd (handleSwipe fr p a)))"
  by (auto simp: handleSwipe_def split: option.splits)

lemma handleGesture_returns:
  assumes "strokeNonEmpty (drawingCanvas a)"
  shows "\<exists>es a'. handleGesture cfg fr state a = Inr (es, a') \<and> strokeNonEmpty (drawingCanvas a')"
proof (cases "current state")
  case none
  with assms show ?thesis
    by (auto simp: handleGesture_def split: option.splits)
next
  case draw
  from handleDraw_returns [OF assms, of cfg fr "indexTip fr"] draw show ?thesis
    by (auto simp: handleGesture_def split: option.splits)
next
  case pinch
  from handlePinch_nonEmpty [OF assms, of fr] pinch show ?thesis
    by (cases "handlePinch fr a") (auto simp: handleGesture_def split: option.splits)
next
  case palm
  from handlePalm_nonEmpty [OF assms, of cfg fr] palm show ?thesis
    by (cases "handlePalm cfg fr a") (auto simp: handleGesture_def split: option.splits)
next
  case fist
  from handleFist_nonEmpty [OF assms, of cfg fr] fist show ?thesis
    by (cases "handleFist cfg fr a") (auto simp: handleGesture_def split: option.splits)
next
  case swipe
  from handleSwipe_nonEmpty [OF assms, of fr "indexTip fr"] swipe show ?thesis
    by (cases "handleSwipe fr (indexTip fr) a") (auto simp: handleGesture_def split: option.splits)
qed

lemma step_returns:
  assumes "strokeNonEmpty (drawingCanvas a)"
  shows "\<exists>es a'. step cfg ev a = Inr (es, a') \<and> strokeNonEmpty (drawingCanvas a')"
proof (cases ev)
  case (HandResults fr)
  show ?thesis
  proof (cases "hand fr")
    case None
    with assms HandResults show ?thesis by (simp add: onHandResults_lost)
  next
    case (Some lm)
    from assms have "strokeNonEmpty (drawingCanvas (a\<lparr>handDetected := True, currentLandmarks := Some lm\<rparr>))"
      by simp
    from handleGesture_returns [OF this, of cfg fr "detected fr"] Some HandResults show ?thesis
      by (auto simp: onHandResults_def Let_def)
  qed
next
  case (AnimationFrame stroke startTime t)
  with assms show ?thesis
    by (auto simp: closeAndInflate_animate_def createBalloon_def Let_def)
next
  case (CreateSettled stroke ok)
  with assms show ?thesis
    by (auto simp: createBalloon_resume_def removeCompletedStroke_def strokeNonEmpty_def
        split: option.splits)
next
  case ClearSettled
  with assms show ?thesis by (simp add: clearAll_resume_def)
next
  case (RenderFrame t)
  with assms show ?thesis by (simp add: animate_def Let_def)
qed

lemma run_returns_from:
  "strokeNonEmpty (drawingCanvas a) \<Longrightarrow>
   \<exists>es a'. run cfg evs a = Inr (es, a') \<and> strokeNonEmpty (drawingCanvas a')"
proof (induction evs arbitrary: a)
  case Nil
  then show ?case by simp
next
  case (Cons ev evs)
  from step_returns [OF Cons.prems, of cfg ev]
  obtain es1 a1 where 1: "step cfg ev a = Inr (es1, a1)" and ok: "strokeNonEmpty (drawingCanvas a1)"
    by blast
  from Cons.IH [OF ok] obtain es2 a2 where "run cfg evs a1 = Inr (es2, a2)"
    and "strokeNonEmpty (drawingCanvas a2)"
    by blast
  with 1 show ?case by simp
qed

lemma run_returns: "\<exists>es a. run cfg evs initialAirCanvas = Inr (es, a)"
  using run_returns_from [of initialAirCanvas cfg evs]
  by (auto simp: strokeNonEmpty_def initialAirCanvas_def emptyCanvas_def)

lemma run_nonEmpty:
  "run cfg evs initialAirCanvas = Inr (es, a) \<Longrightarrow> strokeNonEmpty (drawingCanvas a)"
  using run_returns_from [of initialAirCanvas cfg evs]
  by (auto simp: strokeNonEmpty_def initialAirCanvas_def emptyCanvas_def)

text \<open>
  Claim C4. Take any sequence of callbacks from the initial state, followed by a tracker
  frame with a hand. The frame is handled without an exception, and:
  \<^item> If that frame clears everything (the fist action), the latest tracked frames all showed
    \<open>fist\<close>, back to one whose clock lies at least \<open>FIST_HOLD_TIME\<close> before: a change of
    the gesture kind before the hold time has elapsed keeps the action from firing.
  \<^item> The same holds for the closure of the stroke, \<open>palm\<close> and \<open>PALM_HOLD_TIME\<close>.
  \<^item> On a frame whose gesture kind differs from that of the previous tracked frame, both
    timers are unset (0) when the frame has been handled, and, the hold times being
    positive, neither action fires on it.
\<close>

theorem hold_timers:
  assumes "run cfg evs initialAirCanvas = Inr (es0, a)"
    and "hand fr = Some lm"
  shows "\<exists>es a'. step cfg (HandResults fr) a = Inr (es, a')
       \<and> (ObjectManagerClearAll \<in> set es \<longrightarrow>
            held fist (FIST_HOLD_TIME cfg) (now fr) (history (evs @ [HandResults fr])))
       \<and> (list_ex isClosure es \<longrightarrow>
            held palm (PALM_HOLD_TIME cfg) (now fr) (history (evs @ [HandResults fr])))
       \<and> (gestureChanged a (detected fr) \<longrightarrow> palmHoldStart a' = 0 \<and> fistHoldStart a' = 0)
       \<and> (gestureChanged a (detected fr) \<and> 0 < FIST_HOLD_TIME cfg \<and> 0 < PALM_HOLD_TIME cfg \<longrightarrow>
            ObjectManagerClearAll \<notin> set es \<and> \<not> list_ex isClosure es)"
proof -
  let ?h = "history evs"
  let ?g = "current (detected fr)"
  from step_returns [OF run_nonEmpty [OF assms(1)], of cfg "HandResults fr"]
  obtain es a' where st: "step cfg (HandResults fr) a = Inr (es, a')" by blast
  from run_timers_ok [OF initial_timers_ok assms(1)] have ok: "timers_ok a ?h" by simp
  from st have r: "onHandResults cfg fr a = Inr (es, a')" by simp
  note s = onHandResults_tracked [OF r assms(2)]
  have h': "history (evs @ [HandResults fr]) = (?g, now fr) # ?h"
    using assms(2) by (simp add: history_snoc)
  have unset: "(if g = fist then fistHoldStart a else palmHoldStart a) = 0"
    if "gestureChanged a (detected fr)" and "?g = g" and "g = fist \<or> g = palm" for g
  proof (rule ccontr)
    assume "(if g = fist then fistHoldStart a else palmHoldStart a) \<noteq> 0"
    with ok that(3) obtain t0 where "since g t0 ?h"
      by (auto simp: timers_ok_def split: if_splits)
    then obtain t' older where "?h = (g, t') # older" using since_head by blast
    with ok obtain l where "lastGestureState a = Some l" "current l = g"
      by (auto simp: timers_ok_def)
    with that(1,2) show False by (simp add: gestureChanged_def)
  qed
  have c1: "held fist (FIST_HOLD_TIME cfg) (now fr) (history (evs @ [HandResults fr]))"
    if "ObjectManagerClearAll \<in> set es"
  proof -
    from s(3) that have g: "?g = fist"
      and d: "FIST_HOLD_TIME cfg \<le> now fr - (if fistHoldStart a = 0 then now fr else fistHoldStart a)"
      by simp_all
    show ?thesis
    proof (cases "fistHoldStart a = 0")
      case True
      with d g show ?thesis by (simp add: h')
    next
      case False
      with ok have "since fist (fistHoldStart a) ?h" by (simp add: timers_ok_def)
      from since_held [OF this, of "FIST_HOLD_TIME cfg" "now fr"] d False g show ?thesis
        by (simp add: h')
    qed
  qed
  have c2: "held palm (PALM_HOLD_TIME cfg) (now fr) (history (evs @ [HandResults fr]))"
    if "list_ex isClosure es"
  proof -
    from s(4) that have g: "?g = palm"
      and d: "PALM_HOLD_TIME cfg \<le> now fr - (if palmHoldStart a = 0 then now fr else palmHoldStart a)"
      by simp_all
    show ?thesis
    proof (cases "palmHoldStart a = 0")
      case True
      with d g show ?thesis by (simp add: h')
    next
      case False
      with ok have "since palm (palmHoldStart a) ?h" by (simp add: timers_ok_def)
      from since_held [OF this, of "PALM_HOLD_TIME cfg" "now fr"] d False g show ?thesis
        by (simp add: h')
    qed
  qed
  have c4: "ObjectManagerClearAll \<notin> set es \<and> \<not> list_ex isClosure es"
    if ch: "gestureChanged a (detected fr)" and pos: "0 < FIST_HOLD_TIME cfg" "0 < PALM_HOLD_TIME cfg"
  proof (intro conjI notI)
    assume "ObjectManagerClearAll \<in> set es"
    with s(3) have g: "?g = fist"
      and d: "FIST_HOLD_TIME cfg \<le> now fr - (if fistHoldStart a = 0 then now fr else fistHoldStart a)"
      by simp_all
    from unset [OF ch g] have "fistHoldStart a = 0" by simp
    with d pos show False by simp
  next
    assume "list_ex isClosure es"
    with s(4) have g: "?g = palm"
      and d: "PALM_HOLD_TIME cfg \<le> now fr - (if palmHoldStart a = 0 then now fr else palmHoldStart a)"
      by simp_all
    from unset [OF ch g] have "palmHoldStart a = 0" by simp
    with d pos show False by simp
  qed
  from st c1 c2 s(2) c4 show ?thesis by blast
qed

text \<open>
  Three short runs under hold times of 500 and 1000: a fist held for 1100, a fist given up
  after 300, and a palm held for 600.
\<close>

lemma first_fist:
  "run cfg0 [HandResults (frameOf fist 100 (pt 0 0))] initialAirCanvas
     = Inr ([HideStatus], (tracking fist)\<lparr>fistHoldStart := 100\<rparr>)"
  by (simp add: onHandResults_def handleGesture_def handleFist_def frameOf_def gestureOf_def
      initialAirCanvas_def tracking_def cfg0_def Let_def)

lemma first_palm:
  "run cfg0 [HandResults (frameOf palm 100 (pt 0 0))] initialAirCanvas
     = Inr ([HideStatus], (tracking palm)\<lparr>palmHoldStart := 100\<rparr>)"
  by (simp add: onHandResults_def handleGesture_def handlePalm_def frameOf_def gestureOf_def
      initialAirCanvas_def tracking_def cfg0_def Let_def)

lemma fist_held:
  "step cfg0 (HandResults (frameOf fist 1200 (pt 0 0))) ((tracking fist)\<lparr>fistHoldStart := 100\<rparr>)
     = Inr ([ShowStatus ClearingAll None, ObjectManagerClearAll], tracking fist)"
  by (simp add: onHandResults_def handleGesture_def handleFist_def AirCanvas_clearAll_def
      clearAll_def emptyCanvas_def frameOf_def gestureOf_def
      initialAirCanvas_def tracking_def cfg0_def Let_def)

lemma fist_released:
  "step cfg0 (HandResults (frameOf none 400 (pt 0 0))) ((tracking fist)\<lparr>fistHoldStart := 100\<rparr>)
     = Inr ([], tracking none)"
  by (simp add: onHandResults_def handleGesture_def frameOf_def gestureOf_def
      initialAirCanvas_def tracking_def cfg0_def Let_def)

lemma palm_held:
  "step cfg0 (HandResults (frameOf palm 700 (pt 0 0))) ((tracking palm)\<lparr>palmHoldStart := 100\<rparr>)
     = Inr ([ShowStatus DrawLarger (Some 1000)], tracking palm)"
  by (simp add: onHandResults_def handleGesture_def handlePalm_def closeAndInflate_def
      closeStroke_def emptyCanvas_def frameOf_def gestureOf_def
      initialAirCanvas_def tracking_def cfg0_def Let_def)

text \<open>
  C4 at these runs.
\<close>

theorem hold_timers_witness:
  "run cfg0 [HandResults (frameOf fist 100 (pt 0 0))] initialAirCanvas
     = Inr ([HideStatus], (tracking fist)\<lparr>fistHoldStart := 100\<rparr>)
   \<and> step cfg0 (HandResults (frameOf fist 1200 (pt 0 0))) ((tracking fist)\<lparr>fistHoldStart := 100\<rparr>)
     = Inr ([ShowStatus ClearingAll None, ObjectManagerClearAll], tracking fist)
   \<and> hand (frameOf fist 1200 (pt 0 0)) = Some hand0
   \<and> ObjectManagerClearAll \<in> set [ShowStatus ClearingAll None, ObjectManagerClearAll]
   \<and> held fist (FIST_HOLD_TIME cfg0) (now (frameOf fist 1200 (pt 0 0)))
        (history [HandResults (frameOf fist 100 (pt 0 0)), HandResults (frameOf fist 1200 (pt 0 0))])
   \<and> step cfg0 (HandResults (frameOf none 400 (pt 0 0))) ((tracking fist)\<lparr>fistHoldStart := 100\<rparr>)
     = Inr ([], tracking none)
   \<and> gestureChanged ((tracking fist)\<lparr>fistHoldStart := 100\<rparr>) (detected (frameOf none 400 (pt 0 0)))
   \<and> 0 < FIST_HOLD_TIME cfg0 \<and> 0 < PALM_HOLD_TIME cfg0
   \<and> palmHoldStart (tracking none) = 0 \<and> fistHoldStart (tracking none) = 0
   \<and> run cfg0 [HandResults (frameOf palm 100 (pt 0 0))] initialAirCanvas
     = Inr ([HideStatus], (tracking palm)\<lparr>palmHoldStart := 100\<rparr>)
   \<and> step cfg0 (HandResults (frameOf palm 700 (pt 0 0))) ((tracking palm)\<lparr>palmHoldStart := 100\<rparr>)
     = Inr ([ShowStatus DrawLarger (Some 1000)], tracking palm)
   \<and> list_ex isClosure [ShowStatus DrawLarger (Some 1000)]
   \<and> held palm (PALM_HOLD_TIME cfg0) (now (frameOf palm 700 (pt 0 0)))
        (history [HandResults (frameOf palm 100 (pt 0 0)), HandResults (frameOf palm 700 (pt 0 0))])"
proof -
  have hd: "hand (frameOf g t p) = Some hand0" for g t p
    by (simp add: frameOf_def)
  have ch: "gestureChanged ((tracking fist)\<lparr>fistHoldStart := 100\<rparr>) (detected (frameOf none 400 (pt 0 0)))"
    by (simp add: gestureChanged_def tracking_def frameOf_def gestureOf_def)
  have pos: "0 < FIST_HOLD_TIME cfg0" "0 < PALM_HOLD_TIME cfg0"
    by (simp_all add: cfg0_def)
  have A: "held fist (FIST_HOLD_TIME cfg0) (now (frameOf fist 1200 (pt 0 0)))
        (history [HandResults (frameOf fist 100 (pt 0 0)), HandResults (frameOf fist 1200 (pt 0 0))])"
  proof -
    from hold_timers [OF first_fist hd [of fist 1200 "pt 0 0"]]
    obtain es a' where "step cfg0 (HandResults (frameOf fist 1200 (pt 0 0)))
          ((tracking fist)\<lparr>fistHoldStart := 100\<rparr>) = Inr (es, a')"
      and c: "ObjectManagerClearAll \<in> set es \<longrightarrow>
          held fist (FIST_HOLD_TIME cfg0) (now (frameOf fist 1200 (pt 0 0)))
            (history ([HandResults (frameOf fist 100 (pt 0 0))] @ [HandResults (frameOf fist 1200 (pt 0 0))]))"
      by blast
    with fist_held have "es = [ShowStatus ClearingAll None, ObjectManagerClearAll]" by simp
    with c show ?thesis by simp
  qed
  have B: "palmHoldStart (tracking none) = 0 \<and> fistHoldStart (tracking none) = 0"
  proof -
    from hold_timers [OF first_fist hd [of none 400 "pt 0 0"]]
    obtain es a' where "step cfg0 (HandResults (frameOf none 400 (pt 0 0)))
          ((tracking fist)\<lparr>fistHoldStart := 100\<rparr>) = Inr (es, a')"
      and c: "gestureChanged ((tracking fist)\<lparr>fistHoldStart := 100\<rparr>)
            (detected (frameOf none 400 (pt 0 0))) \<longrightarrow>
          palmHoldStart a' = 0 \<and> fistHoldStart a' = 0"
      by blast
    with fist_released have "a' = tracking none" by simp
    with c ch show ?thesis by simp
  qed
  have C: "held palm (PALM_HOLD_TIME cfg0) (now (frameOf palm 700 (pt 0 0)))
        (history [HandResults (frameOf palm 100 (pt 0 0)), HandResults (frameOf palm 700 (pt 0 0))])"
  proof -
    from hold_timers [OF first_palm hd [of palm 700 "pt 0 0"]]
    obtain es a' where "step cfg0 (HandResults (frameOf palm 700 (pt 0 0)))
          ((tracking palm)\<lparr>palmHoldStart := 100\<rparr>) = Inr (es, a')"
      and c: "list_ex isClosure es \<longrightarrow>
          held palm (PALM_HOLD_TIME cfg0) (now (frameOf palm 700 (pt 0 0)))
            (history ([HandResults (frameOf palm 100 (pt 0 0))] @ [HandResults (frameOf palm 700 (pt 0 0))]))"
      by blast
    with palm_held have "es = [ShowStatus DrawLarger (Some 1000)]" by simp
    with c show ?thesis by simp
  qed
  from first_fist fist_held hd [of fist 1200 "pt 0 0"] A fist_released ch pos B first_palm palm_held C
  show ?thesis by simp
qed




text \<open>
  Claim C2, at a failing input. A pinch over object 7 grabs it; the next frame shows \<open>draw\<close>
  with the fingertip over empty canvas. After it the object is still grabbed, no
  \<open>releaseObject\<close> was called, and a new stroke has been started.
\<close>

theorem draw_while_grabbed:
  "run cfg0 [HandResults (frameOf pinch 100 (pt 50 50)), HandResults (frameOf draw 200 (pt 10 10))]
       initialAirCanvas
     = Inr ([HideStatus, GrabObject 7],
            (tracking draw)\<lparr>grabbedObject := Some 7, isDrawing := True,
               drawingCanvas := startStroke cfg0 (pt 10 10) (Some ''#FFB3BA'') emptyCanvas\<rparr>)
   \<and> objectAt (frameOf draw 200 (pt 10 10)) 10 10 = None
   \<and> currentStroke (startStroke cfg0 (pt 10 10) (Some ''#FFB3BA'') emptyCanvas)
       = Some \<lparr>points = [pt 10 10], color = Some ''#FFB3BA'', width = 4, closed_flag = False\<rparr>"
  by (simp add: onHandResults_def handleGesture_def handlePinch_def handleDraw_def
      startStroke_def colorAt_def frameOf_def gestureOf_def pt_def
      initialAirCanvas_def tracking_def emptyCanvas_def cfg0_def Let_def)

lemma closingProgress_mono:
  "0 < STROKE_CLOSE_PULSE cfg \<Longrightarrow> e1 \<le> e2 \<Longrightarrow> closingProgress cfg e1 \<le> closingProgress cfg e2"
  by (auto simp: closingProgress_def min_def divide_right_mono)

lemma closingProgress_one:
  "0 < STROKE_CLOSE_PULSE cfg \<Longrightarrow>
   closingProgress cfg e = 1 \<longleftrightarrow> STROKE_CLOSE_PULSE cfg * 1000 \<le> e"
  by (auto simp: closingProgress_def min_def pos_le_divide_eq)

lemma closingProgress_le: "closingProgress cfg e \<le> 1"
  by (simp add: closingProgress_def)

lemma animate_step:
  "closeAndInflate_animate cfg stroke t0 t a =
     (if closingProgress cfg (t - t0) = 1
      then ([RenderClosingAnimation stroke 1, CreateFromStroke stroke], a)
      else (pulse cfg stroke t0 t, a))"
  using closingProgress_le [of cfg "t - t0"]
  by (auto simp: closeAndInflate_animate_def createBalloon_def pulse_def Let_def)

lemma animation_pending:
  assumes "0 < STROKE_CLOSE_PULSE cfg" and "\<forall>u \<in> set ts. u - t0 < STROKE_CLOSE_PULSE cfg * 1000"
  shows "closingAnimation cfg stroke t0 ts a = (concat (map (pulse cfg stroke t0) ts), a)"
  using assms(2)
proof (induction ts)
  case Nil
  then show ?case by simp
next
  case (Cons u ts)
  then have "closingProgress cfg (u - t0) \<noteq> 1"
    using closingProgress_one [OF assms(1), of "u - t0"] by simp
  with Cons show ?case
    by (simp add: animate_step pulse_def)
qed

lemma animation_hands_over:
  assumes "0 < STROKE_CLOSE_PULSE cfg" and "\<forall>u \<in> set ts. u - t0 < STROKE_CLOSE_PULSE cfg * 1000"
    and "STROKE_CLOSE_PULSE cfg * 1000 \<le> t - t0"
  shows "closingAnimation cfg stroke t0 (ts @ t # ts') a =
           (concat (map (pulse cfg stroke t0) ts)
              @ [RenderClosingAnimation stroke 1, CreateFromStroke stroke], a)"
  using assms(2)
proof (induction ts)
  case Nil
  from assms(1,3) have "closingProgress cfg (t - t0) = 1"
    by (simp add: closingProgress_one)
  then show ?case by (simp add: animate_step)
next
  case (Cons u ts)
  then have "closingProgress cfg (u - t0) \<noteq> 1"
    using closingProgress_one [OF assms(1), of "u - t0"] by simp
  with Cons show ?case
    by (simp add: animate_step pulse_def)
qed

text \<open>
  Claim C8. For a positive pulse duration the progress given to \<open>renderClosingAnimation\<close>
  is \<open>min(elapsed / (STROKE_CLOSE_PULSE * 1000), 1)\<close>; it is monotone in the elapsed time,
  never above 1, and equal to 1 exactly from the full duration on. A step of the animation
  hands the stroke to \<open>createBalloon\<close> exactly when the progress is 1 and asks for a further
  frame otherwise. So the animation as a whole hands the stroke over once, at the first
  clock reading at which the duration has elapsed, however many frames came before.
\<close>

theorem closing_progress:
  assumes "0 < STROKE_CLOSE_PULSE cfg"
  shows "closingProgress cfg e = min (e / (STROKE_CLOSE_PULSE cfg * 1000)) 1
       \<and> (e1 \<le> e2 \<longrightarrow> closingProgress cfg e1 \<le> closingProgress cfg e2)
       \<and> closingProgress cfg e \<le> 1
       \<and> (closingProgress cfg e = 1 \<longleftrightarrow> STROKE_CLOSE_PULSE cfg * 1000 \<le> e)
       \<and> closeAndInflate_animate cfg stroke t0 t a =
           (if closingProgress cfg (t - t0) = 1
            then ([RenderClosingAnimation stroke 1, CreateFromStroke stroke], a)
            else ([RenderClosingAnimation stroke (closingProgress cfg (t - t0)),
                   RequestAnimationFrame stroke t0], a))
       \<and> ((\<forall>u \<in> set ts. u - t0 < STROKE_CLOSE_PULSE cfg * 1000) \<longrightarrow>
            closingAnimation cfg stroke t0 ts a = (concat (map (pulse cfg stroke t0) ts), a))
       \<and> ((\<forall>u \<in> set ts. u - t0 < STROKE_CLOSE_PULSE cfg * 1000)
            \<and> STROKE_CLOSE_PULSE cfg * 1000 \<le> t - t0 \<longrightarrow>
            closingAnimation cfg stroke t0 (ts @ t # ts') a =
              (concat (map (pulse cfg stroke t0) ts)
                 @ [RenderClosingAnimation stroke 1, CreateFromStroke stroke], a))"
  using closingProgress_mono [OF assms, of e1 e2] closingProgress_le [of cfg e]
    closingProgress_one [OF assms, of e] animate_step [of cfg stroke t0 t a]
    animation_pending [OF assms, of ts t0 stroke a]
    animation_hands_over [OF assms, of ts t0 t stroke ts' a]
  by (simp add: closingProgress_def pulse_def)


text \<open>
  C8 at a pulse of half a second.
\<close>

theorem closing_progress_witness:
  "0 < STROKE_CLOSE_PULSE cfg0
   \<and> closingProgress cfg0 100 = 1 / 5 \<and> closingProgress cfg0 250 = 1 / 2
   \<and> closingProgress cfg0 100 \<le> closingProgress cfg0 250
   \<and> closingProgress cfg0 600 = 1 \<and> STROKE_CLOSE_PULSE cfg0 * 1000 \<le> 600
   \<and> closeAndInflate_animate cfg0 closedSquare 1000 1600 awaiting
       = ([RenderClosingAnimation closedSquare 1, CreateFromStroke closedSquare], awaiting)
   \<and> closingAnimation cfg0 closedSquare 1000 [1000, 1250] awaiting
       = ([RenderClosingAnimation closedSquare 0, RequestAnimationFrame closedSquare 1000,
           RenderClosingAnimation closedSquare (1 / 2), RequestAnimationFrame closedSquare 1000],
          awaiting)
   \<and> closingAnimation cfg0 closedSquare 1000 ([1000, 1250] @ 1600 # [1700]) awaiting
       = ([RenderClosingAnimation closedSquare 0, RequestAnimationFrame closedSquare 1000,
           RenderClosingAnimation closedSquare (1 / 2), RequestAnimationFrame closedSquare 1000,
           RenderClosingAnimation closedSquare 1, CreateFromStroke closedSquare],
          awaiting)"
proof -
  have p: "0 < STROKE_CLOSE_PULSE cfg0" by (simp add: cfg0_def)
  have d: "STROKE_CLOSE_PULSE cfg0 * 1000 = 500" by (simp add: cfg0_def)
  have b: "\<forall>u \<in> set [1000, 1250]. u - 1000 < STROKE_CLOSE_PULSE cfg0 * 1000"
    by (simp add: d)
  have v: "closingProgress cfg0 100 = 1 / 5" "closingProgress cfg0 250 = 1 / 2"
    "closingProgress cfg0 0 = 0"
    using closing_progress [OF p, of 100] closing_progress [OF p, of 250]
      closing_progress [OF p, of 0]
    by (simp_all add: d)
  have m: "closingProgress cfg0 100 \<le> closingProgress cfg0 250"
    using closing_progress [OF p, of 100 100 250, THEN conjunct2, THEN conjunct1] by simp
  have o: "closingProgress cfg0 600 = 1"
    using closing_progress [OF p, of 600] by (simp add: d)
  have s: "closeAndInflate_animate cfg0 closedSquare 1000 1600 awaiting
       = ([RenderClosingAnimation closedSquare 1, CreateFromStroke closedSquare], awaiting)"
    using closing_progress [OF p, of 600 0 0 closedSquare 1000 1600 awaiting] o by simp
  have pend: "closingAnimation cfg0 closedSquare 1000 [1000, 1250] awaiting
       = ([RenderClosingAnimation closedSquare 0, RequestAnimationFrame closedSquare 1000,
           RenderClosingAnimation closedSquare (1 / 2), RequestAnimationFrame closedSquare 1000],
          awaiting)"
    using closing_progress [OF p, of 0 0 0 closedSquare 1000 0 awaiting "[1000, 1250]"] b
    by (simp add: pulse_def v)
  have fin: "closingAnimation cfg0 closedSquare 1000 ([1000, 1250] @ 1600 # [1700]) awaiting
       = ([RenderClosingAnimation closedSquare 0, RequestAnimationFrame closedSquare 1000,
           RenderClosingAnimation closedSquare (1 / 2), RequestAnimationFrame closedSquare 1000,
           RenderClosingAnimation closedSquare 1, CreateFromStroke closedSquare],
          awaiting)"
    using closing_progress [OF p, of 0 0 0 closedSquare 1000 1600 awaiting "[1000, 1250]" "[1700]"] b
    by (simp add: pulse_def v d)
  from p v(1,2) m o d s pend fin show ?thesis by simp
qed

text \<open>
  Claim C3, at a failing input of the first version of \<open>createBalloon\<close>: the stroke is in
  the completed set while \<open>createFromStroke\<close> is pending, and when the promise is rejected
  the \<open>catch\<close> block shows a message and leaves the stroke where it is.
\<close>

theorem createBalloon_failure_keeps_stroke:
  "closedSquare \<in> set (completedStrokes (drawingCanvas awaiting))
   \<and> createBalloon closedSquare awaiting = ([CreateFromStroke closedSquare], awaiting)
   \<and> createBalloon_resume cfg0 closedSquare False awaiting
       = ([ShowStatus FailedToCreate (Some 2000)], awaiting)"
  by (simp add: createBalloon_def createBalloon_resume_def awaiting_def completedCanvas_def)

text \<open>
  The second version removes the stroke before it calls the object manager, and its
  continuation does not touch the state.
\<close>

lemma createBalloon2_removes_first:
  assumes "identities_ok (drawingCanvas b)"
  shows "stroke \<notin> set (completedStrokes (drawingCanvas (snd (createBalloon2 stroke b))))"
    and "createBalloon2_resume stroke ok b' = (if ok then [] else [ShowStatus FailedToCreate (Some 2000)], b')"
  using removeCompletedStroke_removes [OF assms, of stroke]
  by (force simp: createBalloon2_def createBalloon2_resume_def)+

text \<open>
  Claim C7, as amended. When \<open>createFromStroke\<close> is fulfilled, the finalized stroke is not
  in the store any more: the first version removes it then, the second version has removed
  it before the call. In the first version, with a non-empty palette, the colour index
  becomes \<open>(index + 1) mod COLOR_ARRAY.length\<close>, again an index of the palette. The second
  version has no palette index: the colour stays the one the user selected.
\<close>

theorem solidified_stroke_and_color:
  assumes "COLOR_ARRAY cfg \<noteq> []"
    and "identities_ok (drawingCanvas a)" and "identities_ok (drawingCanvas b)"
  shows "stroke \<notin> set (completedStrokes (drawingCanvas (snd (createBalloon_resume cfg stroke True a))))
       \<and> currentColorIndex (snd (createBalloon_resume cfg stroke True a))
           = (currentColorIndex a + 1) mod length (COLOR_ARRAY cfg)
       \<and> currentColorIndex (snd (createBalloon_resume cfg stroke True a)) < length (COLOR_ARRAY cfg)
       \<and> createBalloon stroke a = ([CreateFromStroke stroke], a)
       \<and> fst (createBalloon2 stroke b) = [CreateFromStroke stroke]
       \<and> stroke \<notin> set (completedStrokes (drawingCanvas (snd (createBalloon2 stroke b))))
       \<and> currentColor (snd (createBalloon2 stroke b)) = currentColor b
       \<and> createBalloon2_resume stroke True b' = ([], b')"
  using assms removeCompletedStroke_removes [OF assms(2), of stroke]
    createBalloon2_removes_first [OF assms(3), of stroke]
  by (force simp: createBalloon_resume_def createBalloon_def createBalloon2_def
      createBalloon2_resume_def)

text \<open>
  C7 as stated fails in the second version: after a successful solidification the colour is
  still the first entry of the palette, not the second.
\<close>

theorem solidified_stroke_and_color_counterexample:
  "currentColor awaiting2 = COLOR_ARRAY cfg0 ! 0
   \<and> createBalloon2 closedSquare awaiting2
       = ([CreateFromStroke closedSquare],
          awaiting2\<lparr>drawingCanvas := \<lparr>currentStroke = None, completedStrokes = [], allocated = 1\<rparr>\<rparr>)
   \<and> createBalloon2_resume closedSquare True
         (awaiting2\<lparr>drawingCanvas := \<lparr>currentStroke = None, completedStrokes = [], allocated = 1\<rparr>\<rparr>)
       = ([], awaiting2\<lparr>drawingCanvas := \<lparr>currentStroke = None, completedStrokes = [], allocated = 1\<rparr>\<rparr>)
   \<and> currentColor (awaiting2\<lparr>drawingCanvas := \<lparr>currentStroke = None, completedStrokes = [], allocated = 1\<rparr>\<rparr>)
       = COLOR_ARRAY cfg0 ! 0
   \<and> COLOR_ARRAY cfg0 ! 0 \<noteq> COLOR_ARRAY cfg0 ! ((0 + 1) mod length (COLOR_ARRAY cfg0))"
  by (simp add: createBalloon2_def createBalloon2_resume_def awaiting2_def completedCanvas_def
      removeCompletedStroke_def splice1_def closedSquare_def cfg0_def)

text \<open>
  The amended C7 at the last index of a palette of three, which wraps around to 0.
\<close>

theorem solidified_stroke_and_color_witness:
  "COLOR_ARRAY cfg0 \<noteq> []
   \<and> identities_ok (drawingCanvas ((awaiting)\<lparr>currentColorIndex := 2\<rparr>))
   \<and> identities_ok (drawingCanvas awaiting2)
   \<and> closedSquare \<in> set (completedStrokes (drawingCanvas ((awaiting)\<lparr>currentColorIndex := 2\<rparr>)))
   \<and> closedSquare \<notin> set (completedStrokes (drawingCanvas
         (snd (createBalloon_resume cfg0 closedSquare True ((awaiting)\<lparr>currentColorIndex := 2\<rparr>)))))
   \<and> currentColorIndex (snd (createBalloon_resume cfg0 closedSquare True ((awaiting)\<lparr>currentColorIndex := 2\<rparr>)))
       = 0
   \<and> closedSquare \<notin> set (completedStrokes (drawingCanvas (snd (createBalloon2 closedSquare awaiting2))))
   \<and> currentColor (snd (createBalloon2 closedSquare awaiting2)) = ''#FFB3BA''"
proof -
  let ?a = "(awaiting)\<lparr>currentColorIndex := 2\<rparr>"
  have h1: "COLOR_ARRAY cfg0 \<noteq> []" by (simp add: cfg0_def)
  have h2: "identities_ok (drawingCanvas ?a)"
    by (simp add: identities_ok_def awaiting_def completedCanvas_def closedSquare_def)
  have h3: "identities_ok (drawingCanvas awaiting2)"
    by (simp add: identities_ok_def awaiting2_def completedCanvas_def closedSquare_def)
  have m: "closedSquare \<in> set (completedStrokes (drawingCanvas ?a))"
    by (simp add: awaiting_def completedCanvas_def)
  have c: "(currentColorIndex ?a + 1) mod length (COLOR_ARRAY cfg0) = 0"
    "currentColor awaiting2 = ''#FFB3BA''"
    by (simp_all add: cfg0_def awaiting2_def)
  note T = solidified_stroke_and_color [OF h1 h2 h3, of closedSquare]
  from T c have A: "closedSquare \<notin> set (completedStrokes (drawingCanvas
         (snd (createBalloon_resume cfg0 closedSquare True ?a))))"
    "currentColorIndex (snd (createBalloon_resume cfg0 closedSquare True ?a)) = 0"
    "closedSquare \<notin> set (completedStrokes (drawingCanvas (snd (createBalloon2 closedSquare awaiting2))))"
    "currentColor (snd (createBalloon2 closedSquare awaiting2)) = ''#FFB3BA''"
    by simp_all
  from h1 h2 h3 m A show ?thesis by (intro conjI)
qed

text \<open>
  Only \<open>palm\<close> and the default branch release a grabbed object: the other four gestures
  leave it grabbed.
\<close>

lemma grab_survives:
  assumes "grabbedObject a = Some grabbed" and "hand fr = Some lm"
    and "current (detected fr) \<in> {draw, pinch, fist, swipe}"
    and "onHandResults cfg fr a = Inr (es, a')"
  shows "grabbedObject a' = Some grabbed \<and> ReleaseObject grabbed \<notin> set es"
  using assms
  by (auto simp: onHandResults_def handleGesture_def handleDraw_def handlePinch_def
      handleFist_def handleSwipe_def AirCanvas_clearAll_def Let_def
      split: option.splits if_splits sum.splits prod.splits)


end
